theory Spec2Isabelle
  imports Main "HOL-Library.Word"
begin

unbundle bit_operations_syntax

section \<open>Data model\<close>

type_synonym word32 = "32 word"
type_synonym byte = "8 word"

text \<open>
  A CryptoJS \<open>WordArray\<close>: the array \<open>words\<close> of 32-bit words (read modulo \<open>2^32\<close>,
  big-endian within a word) and the count \<open>sigBytes\<close> of significant bytes.
\<close>

record WordArray =
  words :: "word32 list"
  sigBytes :: nat

definition WordArray_create :: "word32 list \<Rightarrow> nat \<Rightarrow> WordArray" where
  "WordArray_create ws n = \<lparr>words = ws, sigBytes = n\<rparr>"

text \<open>The JavaScript idiom \<open>a[i] || 0\<close>: an absent element (and a zero one) reads as 0.\<close>

definition word_or_0 :: "word32 list \<Rightarrow> nat \<Rightarrow> word32" where
  "word_or_0 ws i = (if i < length ws then ws ! i else 0)"

section \<open>Feistel core: TEA (tea.ts)\<close>

definition TEA_ROUNDS :: nat where
  "TEA_ROUNDS = 32"

definition TEA_DELTA :: word32 where
  "TEA_DELTA = 0x9e3779b9"

text \<open>One pass of the loop body of \<open>TeaEngine.encryptBlock\<close> on \<open>(v0, v1, sm)\<close>.\<close>

definition tea_enc_round ::
  "word32 \<Rightarrow> word32 \<Rightarrow> word32 \<Rightarrow> word32 \<Rightarrow> word32 \<times> word32 \<times> word32 \<Rightarrow> word32 \<times> word32 \<times> word32" where
  "tea_enc_round k0 k1 k2 k3 s =
     (case s of (v0, v1, sm) \<Rightarrow>
        let sm' = sm + TEA_DELTA;
            v0' = v0 + ((push_bit 4 v1 + k0) XOR (v1 + sm') XOR (drop_bit 5 v1 + k1));
            v1' = v1 + ((push_bit 4 v0' + k2) XOR (v0' + sm') XOR (drop_bit 5 v0' + k3))
        in (v0', v1', sm'))"

definition tea_encryptBlock :: "WordArray \<Rightarrow> WordArray \<Rightarrow> WordArray" where
  "tea_encryptBlock block key =
     (let v0 = word_or_0 (words block) 0;
          v1 = word_or_0 (words block) 1;
          k0 = word_or_0 (words key) 0;
          k1 = word_or_0 (words key) 1;
          k2 = word_or_0 (words key) 2;
          k3 = word_or_0 (words key) 3
      in case (tea_enc_round k0 k1 k2 k3 ^^ TEA_ROUNDS) (v0, v1, 0) of
           (v0', v1', _) \<Rightarrow> WordArray_create [v0', v1'] 8)"

text \<open>One pass of the loop body of \<open>TeaEngine.decryptBlock\<close>.\<close>

definition tea_dec_round ::
  "word32 \<Rightarrow> word32 \<Rightarrow> word32 \<Rightarrow> word32 \<Rightarrow> word32 \<times> word32 \<times> word32 \<Rightarrow> word32 \<times> word32 \<times> word32" where
  "tea_dec_round k0 k1 k2 k3 s =
     (case s of (v0, v1, sm) \<Rightarrow>
        let v1' = v1 - ((push_bit 4 v0 + k2) XOR (v0 + sm) XOR (drop_bit 5 v0 + k3));
            v0' = v0 - ((push_bit 4 v1' + k0) XOR (v1' + sm) XOR (drop_bit 5 v1' + k1));
            sm' = sm - TEA_DELTA
        in (v0', v1', sm'))"

definition tea_decryptBlock :: "WordArray \<Rightarrow> WordArray \<Rightarrow> WordArray" where
  "tea_decryptBlock block key =
     (let v0 = word_or_0 (words block) 0;
          v1 = word_or_0 (words block) 1;
          k0 = word_or_0 (words key) 0;
          k1 = word_or_0 (words key) 1;
          k2 = word_or_0 (words key) 2;
          k3 = word_or_0 (words key) 3
      in case (tea_dec_round k0 k1 k2 k3 ^^ TEA_ROUNDS) (v0, v1, TEA_DELTA * of_nat TEA_ROUNDS) of
           (v0', v1', _) \<Rightarrow> WordArray_create [v0', v1'] 8)"

section \<open>Feistel core: XTEA (xtea.ts)\<close>

definition XTEA_ROUNDS :: nat where
  "XTEA_ROUNDS = 32"

definition XTEA_DELTA :: word32 where
  "XTEA_DELTA = 0x9e3779b9"

text \<open>
  The loop body of \<open>XteaEngine.encryptBlock\<close>. In JavaScript \<open>+\<close> binds tighter than
  \<open>^\<close>, so \<open>v0 + (((v1 << 4) ^ (v1 >>> 5)) + v1) ^ (sum + keyArray[sum & 3])\<close> is
  \<open>(v0 + (...)) ^ (sum + keyArray[sum & 3])\<close>. \<open>keyArray\<close> always has four entries;
  \<open>sm\<close> is the variable \<open>sum\<close> of the source.
\<close>

definition xtea_enc_round ::
  "word32 list \<Rightarrow> word32 \<times> word32 \<times> word32 \<Rightarrow> word32 \<times> word32 \<times> word32" where
  "xtea_enc_round keyArray s =
     (case s of (v0, v1, sm) \<Rightarrow>
        let v0' = (v0 + ((push_bit 4 v1 XOR drop_bit 5 v1) + v1))
                    XOR (sm + keyArray ! unat (sm AND 3));
            sm' = sm + XTEA_DELTA;
            v1' = (v1 + ((push_bit 4 v0' XOR drop_bit 5 v0') + v0'))
                    XOR (sm' + keyArray ! unat (drop_bit 11 sm' AND 3))
        in (v0', v1', sm'))"

definition xtea_keyArray :: "WordArray \<Rightarrow> word32 list" where
  "xtea_keyArray key =
     [word_or_0 (words key) 0, word_or_0 (words key) 1,
      word_or_0 (words key) 2, word_or_0 (words key) 3]"

definition xtea_encryptBlock :: "WordArray \<Rightarrow> WordArray \<Rightarrow> WordArray" where
  "xtea_encryptBlock block key =
     (let v0 = word_or_0 (words block) 0;
          v1 = word_or_0 (words block) 1;
          keyArray = xtea_keyArray key
      in case (xtea_enc_round keyArray ^^ XTEA_ROUNDS) (v0, v1, 0) of
           (v0', v1', _) \<Rightarrow> WordArray_create [v0', v1'] 8)"

text \<open>The loop body of \<open>XteaEngine.decryptBlock\<close>, with the same operator precedence.\<close>

definition xtea_dec_round ::
  "word32 list \<Rightarrow> word32 \<times> word32 \<times> word32 \<Rightarrow> word32 \<times> word32 \<times> word32" where
  "xtea_dec_round keyArray s =
     (case s of (v0, v1, sm) \<Rightarrow>
        let v1' = (v1 - ((push_bit 4 v0 XOR drop_bit 5 v0) + v0))
                    XOR (sm + keyArray ! unat (drop_bit 11 sm AND 3));
            sm' = sm - XTEA_DELTA;
            v0' = (v0 - ((push_bit 4 v1' XOR drop_bit 5 v1') + v1'))
                    XOR (sm' + keyArray ! unat (sm' AND 3))
        in (v0', v1', sm'))"

definition xtea_decryptBlock :: "WordArray \<Rightarrow> WordArray \<Rightarrow> WordArray" where
  "xtea_decryptBlock block key =
     (let v0 = word_or_0 (words block) 0;
          v1 = word_or_0 (words block) 1;
          keyArray = xtea_keyArray key
      in case (xtea_dec_round keyArray ^^ XTEA_ROUNDS) (v0, v1, XTEA_DELTA * of_nat XTEA_ROUNDS) of
           (v0', v1', _) \<Rightarrow> WordArray_create [v0', v1'] 8)"

section \<open>ARX core: ChaCha20 (class \<open>ChaCha20\<close>)\<close>

text \<open>A \<open>Uint8Array\<close> element read into a 32-bit operation; an absent element reads as 0.\<close>

definition u8_at :: "byte list \<Rightarrow> nat \<Rightarrow> word32" where
  "u8_at a i = (if i < length a then ucast (a ! i) else 0)"

definition chacha_rotateLeft :: "word32 \<Rightarrow> nat \<Rightarrow> word32" where
  "chacha_rotateLeft n amount = push_bit amount n OR drop_bit (32 - amount) n"

text \<open>
  The quarter round mutates the state array statement by statement. The three kinds of
  statement are \<open>state[a] = (state[a] + state[b]) >>> 0\<close>, \<open>state[d] ^= state[a]\<close> and
  \<open>state[d] = rotateLeft(state[d], n)\<close>; \<open>run_steps\<close> executes a list of statements in
  order on the array.
\<close>

definition st_add :: "nat \<Rightarrow> nat \<Rightarrow> word32 list \<Rightarrow> word32 list" where
  "st_add a b st = st[a := st ! a + st ! b]"

definition st_xor :: "nat \<Rightarrow> nat \<Rightarrow> word32 list \<Rightarrow> word32 list" where
  "st_xor d a st = st[d := st ! d XOR st ! a]"

definition st_rotl :: "nat \<Rightarrow> nat \<Rightarrow> word32 list \<Rightarrow> word32 list" where
  "st_rotl d n st = st[d := chacha_rotateLeft (st ! d) n]"

fun run_steps :: "('s \<Rightarrow> 's) list \<Rightarrow> 's \<Rightarrow> 's" where
  "run_steps [] st = st"
| "run_steps (step # steps) st = run_steps steps (step st)"

text \<open>A loop that runs its body \<open>n\<close> times on the state.\<close>

fun repeat_n :: "nat \<Rightarrow> ('s \<Rightarrow> 's) \<Rightarrow> 's \<Rightarrow> 's" where
  "repeat_n 0 body st = st"
| "repeat_n (Suc n) body st = repeat_n n body (body st)"

text \<open>\<open>quarterRound(state, a, b, c, d)\<close>, with the array as the last argument.\<close>

definition chacha_quarterRound :: "nat \<Rightarrow> nat \<Rightarrow> nat \<Rightarrow> nat \<Rightarrow> word32 list \<Rightarrow> word32 list" where
  "chacha_quarterRound a b c d =
     run_steps
       [st_add a b, st_xor d a, st_rotl d 16,
        st_add c d, st_xor b c, st_rotl b 12,
        st_add a b, st_xor d a, st_rotl d 8,
        st_add c d, st_xor b c, st_rotl b 7]"

text \<open>The little-endian load \<open>a[o] | a[o+1] << 8 | a[o+2] << 16 | a[o+3] << 24\<close>.\<close>

definition chacha_load32 :: "byte list \<Rightarrow> nat \<Rightarrow> word32" where
  "chacha_load32 a off =
     u8_at a off OR push_bit 8 (u8_at a (off + 1)) OR push_bit 16 (u8_at a (off + 2))
       OR push_bit 24 (u8_at a (off + 3))"

definition chacha_constants :: "word32 list" where
  "chacha_constants = [0x61707865, 0x3320646e, 0x79622d32, 0x6b206574]"

text \<open>
  The initial state of \<open>chacha20Block\<close>: a zeroed \<open>Uint32Array(16)\<close>, then the constants,
  the eight key words, the counter (stored into a \<open>Uint32Array\<close>, hence modulo \<open>2^32\<close>) and
  the three nonce words.
\<close>

definition chacha_init_state :: "byte list \<Rightarrow> byte list \<Rightarrow> nat \<Rightarrow> word32 list" where
  "chacha_init_state key nonce counter =
     run_steps
       [fold (\<lambda>i st. st[i := chacha_constants ! i]) [0..<4],
        fold (\<lambda>i st. st[4 + i := chacha_load32 key (i * 4)]) [0..<8],
        \<lambda>st. st[12 := of_nat counter],
        fold (\<lambda>i st. st[13 + i := chacha_load32 nonce (i * 4)]) [0..<3]]
       (replicate 16 0)"

text \<open>One pass of the ten-times loop: four column and four diagonal quarter rounds.\<close>

definition chacha_double_round :: "word32 list \<Rightarrow> word32 list" where
  "chacha_double_round =
     run_steps
       [chacha_quarterRound 0 4 8 12,
        chacha_quarterRound 1 5 9 13,
        chacha_quarterRound 2 6 10 14,
        chacha_quarterRound 3 7 11 15,
        chacha_quarterRound 0 5 10 15,
        chacha_quarterRound 1 6 11 12,
        chacha_quarterRound 2 7 8 13,
        chacha_quarterRound 3 4 9 14]"

text \<open>The loop \<open>workingState[i] = (workingState[i] + state[i]) >>> 0\<close> for \<open>i < 16\<close>.\<close>

definition add_original_state :: "word32 list \<Rightarrow> word32 list \<Rightarrow> word32 list" where
  "add_original_state workingState state =
     fold (\<lambda>i ws. ws[i := ws ! i + state ! i]) [0..<16] workingState"

text \<open>The loop that fills the 64-byte \<open>Uint8Array\<close> \<open>output\<close>.\<close>

definition chacha_to_bytes :: "word32 list \<Rightarrow> byte list" where
  "chacha_to_bytes workingState =
     fold (\<lambda>i out.
             out[i * 4 := ucast (workingState ! i AND 0xff),
                 i * 4 + 1 := ucast (drop_bit 8 (workingState ! i) AND 0xff),
                 i * 4 + 2 := ucast (drop_bit 16 (workingState ! i) AND 0xff),
                 i * 4 + 3 := ucast (drop_bit 24 (workingState ! i) AND 0xff)])
          [0..<16] (replicate 64 0)"

text \<open>
  \<open>chacha20Block\<close> after the state is set up: ten double rounds on a copy of the state,
  the addition of the original state, and the conversion to bytes.
\<close>

definition chacha_block_of_state :: "word32 list \<Rightarrow> byte list" where
  "chacha_block_of_state state =
     chacha_to_bytes (add_original_state (repeat_n 10 chacha_double_round state) state)"

definition chacha20Block :: "byte list \<Rightarrow> byte list \<Rightarrow> nat \<Rightarrow> byte list" where
  "chacha20Block key nonce counter = chacha_block_of_state (chacha_init_state key nonce counter)"

text \<open>
  \<open>ChaCha20.encrypt\<close>: the outer loop over \<open>i = 0, 64, 128, ...\<close> with the running block
  counter; the inner loop writes \<open>output[i + j] = plaintext[i + j] ^ keystream[j]\<close> for
  \<open>j < min 64 (plaintext.length - i)\<close>. The block function is a parameter \<open>blk\<close> here, so
  that statements about when it is called can be made; \<open>chacha_encrypt\<close> below fixes it.
\<close>

function chacha_encrypt_loop ::
  "(nat \<Rightarrow> byte list) \<Rightarrow> byte list \<Rightarrow> nat \<Rightarrow> nat \<Rightarrow> byte list \<Rightarrow> byte list" where
  "chacha_encrypt_loop blk plaintext i counter output =
     (if i < length plaintext then
        let keystream = blk counter;
            remaining = min 64 (length plaintext - i);
            output = fold (\<lambda>j out. out[i + j := plaintext ! (i + j) XOR keystream ! j])
                          [0..<remaining] output
        in chacha_encrypt_loop blk plaintext (i + 64) (counter + 1) output
      else output)"
  by pat_completeness auto
termination
  by (relation "measure (\<lambda>(blk, plaintext, i, counter, output). length plaintext - i)") auto

definition chacha_encrypt_with ::
  "(byte list \<Rightarrow> byte list \<Rightarrow> nat \<Rightarrow> byte list) \<Rightarrow> byte list \<Rightarrow> byte list \<Rightarrow> byte list \<Rightarrow> byte list" where
  "chacha_encrypt_with blk plaintext key nonce =
     chacha_encrypt_loop (blk key nonce) plaintext 0 0 (replicate (length plaintext) 0)"

definition chacha_encrypt :: "byte list \<Rightarrow> byte list \<Rightarrow> byte list \<Rightarrow> byte list" where
  "chacha_encrypt = chacha_encrypt_with chacha20Block"

text \<open>
  The test vector of RFC 8439, appendix A.1, test vector 3: the key is 31 zero bytes
  followed by the byte 1, the nonce is twelve zero bytes, the block counter is 1, and the
  published keystream block is the 64 bytes below.
\<close>

definition rfc8439_key :: "byte list" where
  "rfc8439_key = replicate 31 0 @ [1]"

definition rfc8439_nonce :: "byte list" where
  "rfc8439_nonce = replicate 12 0"

definition rfc8439_keystream :: "byte list" where
  "rfc8439_keystream =
   [0x3a, 0xeb, 0x52, 0x24, 0xec, 0xf8, 0x49, 0x92, 0x9b, 0x9d, 0x82, 0x8d, 0xb1,
    0xce, 0xd4, 0xdd, 0x83, 0x20, 0x25, 0xe8, 0x01, 0x8b, 0x81, 0x60, 0xb8, 0x22,
    0x84, 0xf3, 0xc9, 0x49, 0xaa, 0x5a, 0x8e, 0xca, 0x00, 0xbb, 0xb4, 0xa7, 0x3b,
    0xda, 0xd1, 0x92, 0xb5, 0xc4, 0x2f, 0x73, 0xf2, 0xfd, 0x4e, 0x27, 0x36, 0x44,
    0xc8, 0xb3, 0x61, 0x25, 0xa6, 0x4a, 0xdd, 0xeb, 0x00, 0x6c, 0x13, 0xa0]"


section \<open>Strings, hexadecimal and text encodings (CryptoJS and platform functions)\<close>

text \<open>
  A JavaScript string is a \<open>string\<close> here. A hexadecimal parameter (key, IV, nonce,
  ciphertext) is read character by character; a text (plaintext, decrypted result) is
  represented by the code units of its UTF-8 encoding, so that \<open>Utf8.parse\<close> and
  \<open>TextEncoder.encode\<close> read the characters as bytes. Texts are well-formed Unicode
  strings: a lone surrogate, on which \<open>encodeURIComponent\<close> throws, has no representation.
\<close>

definition isStrWhiteSpaceChar :: "char \<Rightarrow> bool" where
  "isStrWhiteSpaceChar c = (of_char c \<in> {9, 10, 11, 12, 13, 32, 160 :: nat})"

definition hexDigitValue :: "char \<Rightarrow> nat option" where
  "hexDigitValue c =
     (if 48 \<le> (of_char c :: nat) \<and> (of_char c :: nat) \<le> 57 then Some (of_char c - 48)
      else if 97 \<le> (of_char c :: nat) \<and> (of_char c :: nat) \<le> 102 then Some (of_char c - 87)
      else if 65 \<le> (of_char c :: nat) \<and> (of_char c :: nat) \<le> 70 then Some (of_char c - 55)
      else None)"

definition isHexDigit :: "char \<Rightarrow> bool" where
  "isHexDigit c = (hexDigitValue c \<noteq> None)"

text \<open>
  \<open>parseInt(str, 16)\<close> of ECMAScript: leading white space is skipped, a sign is read, a
  prefix \<open>0x\<close> or \<open>0X\<close> is dropped, and the longest run of hexadecimal digits is the
  value; \<open>None\<close> is \<open>NaN\<close>.
\<close>

definition strip_sign :: "string \<Rightarrow> string" where
  "strip_sign s = (if s \<noteq> [] \<and> (hd s = CHR ''-'' \<or> hd s = CHR ''+'') then tl s else s)"

definition strip_0x :: "string \<Rightarrow> string" where
  "strip_0x s = (if take 2 s = ''0x'' \<or> take 2 s = ''0X'' then drop 2 s else s)"

definition hex_value :: "string \<Rightarrow> nat" where
  "hex_value z = foldl (\<lambda>a c. 16 * a + the (hexDigitValue c)) 0 z"

definition parseInt16_digits :: "bool \<Rightarrow> string \<Rightarrow> int option" where
  "parseInt16_digits neg z =
     (if z = [] then None else Some ((if neg then - 1 else 1) * int (hex_value z)))"

definition parseInt16_signed :: "string \<Rightarrow> int option" where
  "parseInt16_signed s =
     parseInt16_digits (s \<noteq> [] \<and> hd s = CHR ''-'') (takeWhile isHexDigit (strip_0x (strip_sign s)))"

definition parseInt16 :: "string \<Rightarrow> int option" where
  "parseInt16 str = parseInt16_signed (dropWhile isStrWhiteSpaceChar str)"

text \<open>A number used in a 32-bit operation: \<open>NaN\<close> is 0, an integer is taken modulo \<open>2^32\<close>.\<close>

definition toInt32 :: "int option \<Rightarrow> word32" where
  "toInt32 v = (case v of None \<Rightarrow> 0 | Some n \<Rightarrow> of_int n)"

text \<open>
  The statement \<open>words[k] |= x\<close> on an array that may not have the element \<open>k\<close> yet:
  an absent element is \<open>undefined\<close> and \<open>undefined | x\<close> is \<open>x\<close>. Elements skipped over
  would be holes, which every later use reads as 0.
\<close>

definition or_into :: "word32 list \<Rightarrow> nat \<Rightarrow> word32 \<Rightarrow> word32 list" where
  "or_into ws k x =
     (if k < length ws then ws[k := ws ! k OR x] else ws @ replicate (k - length ws) 0 @ [x])"

text \<open>\<open>hexStr.substr(i, 2)\<close>.\<close>

definition substr2 :: "string \<Rightarrow> nat \<Rightarrow> string" where
  "substr2 s i = take 2 (drop i s)"

text \<open>
  \<open>CryptoJS.enc.Hex.parse\<close>: for \<open>i = 0, 2, 4, ...\<close> below the length of the string,
  \<open>words[i >>> 3] |= parseInt(hexStr.substr(i, 2), 16) << (24 - (i % 8) * 4)\<close>. It never
  throws. CryptoJS sets \<open>sigBytes\<close> to \<open>hexStr.length / 2\<close>, a JavaScript number that is
  fractional for a string of odd length; every loop and \<open>Math.ceil\<close> that later reads it
  behaves as for the next integer, which is the \<open>sigBytes\<close> of the model, and the exact
  comparisons \<open>sigBytes === n\<close> are \<open>Hex_sigBytes_is\<close>.
\<close>

definition Hex_parse_step :: "string \<Rightarrow> nat \<Rightarrow> word32 list \<Rightarrow> word32 list" where
  "Hex_parse_step hexStr i ws =
     or_into ws (i div 8) (push_bit (24 - (i mod 8) * 4) (toInt32 (parseInt16 (substr2 hexStr i))))"

definition Hex_parse_words :: "string \<Rightarrow> word32 list" where
  "Hex_parse_words hexStr =
     fold (Hex_parse_step hexStr) (map (\<lambda>j. 2 * j) [0..<(length hexStr + 1) div 2]) []"

definition Hex_parse :: "string \<Rightarrow> WordArray" where
  "Hex_parse hexStr = WordArray_create (Hex_parse_words hexStr) ((length hexStr + 1) div 2)"

definition Hex_sigBytes_is :: "string \<Rightarrow> nat \<Rightarrow> bool" where
  "Hex_sigBytes_is hexStr n = (length hexStr = 2 * n)"

text \<open>The byte \<open>(words[i >>> 2] >>> (24 - (i % 4) * 8)) & 0xff\<close> of a word array.\<close>

definition wa_byte :: "WordArray \<Rightarrow> nat \<Rightarrow> word32" where
  "wa_byte wa i = drop_bit (24 - (i mod 4) * 8) (word_or_0 (words wa) (i div 4)) AND 0xff"

text \<open>\<open>n.toString(16)\<close> for \<open>n < 16\<close>.\<close>

definition hexDigitChar :: "word32 \<Rightarrow> char" where
  "hexDigitChar n = (if n < 10 then char_of (48 + unat n) else char_of (87 + unat n))"

definition Hex_stringify :: "WordArray \<Rightarrow> string" where
  "Hex_stringify wa =
     concat (map (\<lambda>i. [hexDigitChar (drop_bit 4 (wa_byte wa i)), hexDigitChar (wa_byte wa i AND 0x0f)])
                 [0..<sigBytes wa])"

text \<open>
  \<open>CryptoJS.enc.Latin1\<close>: \<open>words[i >>> 2] |= (str.charCodeAt(i) & 0xff) << (24 - (i % 4) * 8)\<close>
  and back.
\<close>

definition Latin1_parse_step :: "string \<Rightarrow> nat \<Rightarrow> word32 list \<Rightarrow> word32 list" where
  "Latin1_parse_step str i ws =
     or_into ws (i div 4) (push_bit (24 - (i mod 4) * 8) (of_char (str ! i) AND 0xff))"

definition Latin1_parse :: "string \<Rightarrow> WordArray" where
  "Latin1_parse str =
     WordArray_create (fold (Latin1_parse_step str) [0..<length str] []) (length str)"

definition Latin1_stringify :: "WordArray \<Rightarrow> string" where
  "Latin1_stringify wa = map (\<lambda>i. char_of (unat (wa_byte wa i))) [0..<sigBytes wa]"

text \<open>
  Well-formed UTF-8 (the table of well-formed byte sequences of the Unicode standard):
  what \<open>decodeURIComponent\<close> accepts.
\<close>

definition utf8_cont :: "byte \<Rightarrow> bool" where
  "utf8_cont b = (0x80 \<le> b \<and> b \<le> 0xBF)"

definition utf8_lower :: "byte \<Rightarrow> byte" where
  "utf8_lower b = (if b = 0xE0 then 0xA0 else if b = 0xF0 then 0x90 else 0x80)"

definition utf8_upper :: "byte \<Rightarrow> byte" where
  "utf8_upper b = (if b = 0xED then 0x9F else if b = 0xF4 then 0x8F else 0xBF)"

definition utf8_second :: "byte \<Rightarrow> byte \<Rightarrow> bool" where
  "utf8_second b c = (utf8_lower b \<le> c \<and> c \<le> utf8_upper b)"

fun utf8_wf :: "byte list \<Rightarrow> bool" where
  "utf8_wf [] = True"
| "utf8_wf (b # bs) =
     (if b \<le> 0x7F then utf8_wf bs
      else if 0xC2 \<le> b \<and> b \<le> 0xDF then
        (case bs of c # cs \<Rightarrow> utf8_second b c \<and> utf8_wf cs | _ \<Rightarrow> False)
      else if 0xE0 \<le> b \<and> b \<le> 0xEF then
        (case bs of c # d # ds \<Rightarrow> utf8_second b c \<and> utf8_cont d \<and> utf8_wf ds | _ \<Rightarrow> False)
      else if 0xF0 \<le> b \<and> b \<le> 0xF4 then
        (case bs of c # d # e # es \<Rightarrow>
           utf8_second b c \<and> utf8_cont d \<and> utf8_cont e \<and> utf8_wf es | _ \<Rightarrow> False)
      else False)"

text \<open>
  \<open>CryptoJS.enc.Utf8\<close>: \<open>parse\<close> is \<open>Latin1.parse\<close> of the UTF-8 code units;
  \<open>stringify\<close> is \<open>decodeURIComponent(escape(Latin1.stringify(wordArray)))\<close> and throws
  \<open>Error('Malformed UTF-8 data')\<close> when the bytes are not well-formed UTF-8.
\<close>

definition Utf8_parse :: "string \<Rightarrow> WordArray" where
  "Utf8_parse str = Latin1_parse str"

definition utf8_checked :: "string \<Rightarrow> string + string" where
  "utf8_checked s = (if utf8_wf (map of_char s) then Inr s else Inl ''Malformed UTF-8 data'')"

definition Utf8_stringify :: "WordArray \<Rightarrow> string + string" where
  "Utf8_stringify wa = utf8_checked (Latin1_stringify wa)"

text \<open>
  \<open>new TextEncoder().encode(text)\<close> gives the UTF-8 bytes. \<open>new TextDecoder().decode(bytes)\<close>
  never throws: it drops a leading byte order mark \<open>EF BB BF\<close> and replaces every
  ill-formed part by U+FFFD, whose UTF-8 encoding is \<open>EF BF BD\<close> (the UTF-8 decoder of the
  WHATWG Encoding standard: a byte that cannot continue a sequence ends it with one
  replacement character and is read again).
\<close>

definition TextEncoder_encode :: "string \<Rightarrow> byte list" where
  "TextEncoder_encode text = map of_char text"

definition utf8_replacement :: "byte list" where
  "utf8_replacement = [0xEF, 0xBF, 0xBD]"

fun utf8_decode :: "byte list \<Rightarrow> byte list" where
  "utf8_decode [] = []"
| "utf8_decode (b # bs) =
     (if b \<le> 0x7F then b # utf8_decode bs
      else if 0xC2 \<le> b \<and> b \<le> 0xDF then
        (case bs of
           [] \<Rightarrow> utf8_replacement
         | c # cs \<Rightarrow>
             if utf8_second b c then b # c # utf8_decode cs
             else utf8_replacement @ utf8_decode (c # cs))
      else if 0xE0 \<le> b \<and> b \<le> 0xEF then
        (case bs of
           [] \<Rightarrow> utf8_replacement
         | c # cs \<Rightarrow>
             if utf8_second b c then
               (case cs of
                  [] \<Rightarrow> utf8_replacement
                | d # ds \<Rightarrow>
                    if utf8_cont d then b # c # d # utf8_decode ds
                    else utf8_replacement @ utf8_decode (d # ds))
             else utf8_replacement @ utf8_decode (c # cs))
      else if 0xF0 \<le> b \<and> b \<le> 0xF4 then
        (case bs of
           [] \<Rightarrow> utf8_replacement
         | c # cs \<Rightarrow>
             if utf8_second b c then
               (case cs of
                  [] \<Rightarrow> utf8_replacement
                | d # ds \<Rightarrow>
                    if utf8_cont d then
                      (case ds of
                         [] \<Rightarrow> utf8_replacement
                       | e # es \<Rightarrow>
                           if utf8_cont e then b # c # d # e # utf8_decode es
                           else utf8_replacement @ utf8_decode (e # es))
                    else utf8_replacement @ utf8_decode (d # ds))
             else utf8_replacement @ utf8_decode (c # cs))
      else utf8_replacement @ utf8_decode bs)"

definition strip_bom :: "byte list \<Rightarrow> byte list" where
  "strip_bom bs = (if take 3 bs = [0xEF, 0xBB, 0xBF] then drop 3 bs else bs)"

definition TextDecoder_decode :: "byte list \<Rightarrow> string" where
  "TextDecoder_decode bs = map (\<lambda>b. char_of (unat b)) (utf8_decode (strip_bom bs))"

section \<open>The plugin contract (types/crypto.ts)\<close>

text \<open>
  \<open>EncryptionParams\<close>, \<open>DecryptionParams\<close> and \<open>CryptoOperation\<close>. An optional field is
  an \<open>option\<close>; the fields of the parameter records carry the prefix \<open>p_\<close> (encryption)
  or \<open>c_\<close> (decryption), those of the result's metadata the prefix \<open>md_\<close> where the name
  is used twice.
\<close>

record EncryptionParams =
  p_plaintext :: string
  p_key :: string
  p_iv :: "string option"
  p_nonce :: "string option"
  p_mode :: "string option"
  p_variant :: "string option"

record DecryptionParams =
  c_ciphertext :: string
  c_key :: string
  c_iv :: "string option"
  c_nonce :: "string option"
  c_mode :: "string option"
  c_variant :: "string option"

record OperationMetadata =
  keyLength :: nat
  ivLength :: "nat option"
  nonceLength :: "nat option"
  md_mode :: "string option"
  md_variant :: "string option"

record CryptoOperation =
  success :: bool
  result :: "string option"
  error :: "string option"
  op_metadata :: "OperationMetadata option"

text \<open>A destructuring default \<open>{ x = d }\<close>, and the truth value of an optional string.\<close>

definition default_to :: "'a option \<Rightarrow> 'a \<Rightarrow> 'a" where
  "default_to v d = (case v of None \<Rightarrow> d | Some x \<Rightarrow> x)"

definition given :: "string option \<Rightarrow> bool" where
  "given v = (v \<noteq> None \<and> v \<noteq> Some [])"

definition failure :: "string \<Rightarrow> CryptoOperation" where
  "failure msg = \<lparr>success = False, result = None, error = Some msg, op_metadata = None\<rparr>"

definition succeed :: "string \<Rightarrow> OperationMetadata \<Rightarrow> CryptoOperation" where
  "succeed r md = \<lparr>success = True, result = Some r, error = None, op_metadata = Some md\<rparr>"

text \<open>
  The body of a \<open>try\<close> block is a value of \<open>string + CryptoOperation\<close>: \<open>Inl msg\<close> is
  \<open>throw new Error(msg)\<close>, and the \<open>catch\<close> clause of every engine turns it into the
  failure result with that message.
\<close>

definition catch_error :: "string + CryptoOperation \<Rightarrow> CryptoOperation" where
  "catch_error body = (case body of Inl msg \<Rightarrow> failure msg | Inr r \<Rightarrow> r)"

definition text_result :: "string + string \<Rightarrow> OperationMetadata \<Rightarrow> string + CryptoOperation" where
  "text_result r md = (case r of Inl msg \<Rightarrow> Inl msg | Inr s \<Rightarrow> Inr (succeed s md))"

section \<open>Block-mode wrapper (tea.ts and xtea.ts)\<close>

text \<open>
  The classes \<open>TeaEngine\<close> and \<open>XteaEngine\<close> have the same text except for the name in
  the messages, the default variant and the two block functions; a \<open>FeistelEngine\<close>
  holds these four, and the methods below are written once over it.
\<close>

record FeistelEngine =
  engineName :: string
  defaultVariant :: string
  encryptBlock :: "WordArray \<Rightarrow> WordArray \<Rightarrow> WordArray"
  decryptBlock :: "WordArray \<Rightarrow> WordArray \<Rightarrow> WordArray"

definition TeaEngine :: FeistelEngine where
  "TeaEngine = \<lparr>engineName = ''TEA'', defaultVariant = ''tea'',
                 encryptBlock = tea_encryptBlock, decryptBlock = tea_decryptBlock\<rparr>"

definition XteaEngine :: FeistelEngine where
  "XteaEngine = \<lparr>engineName = ''XTEA'', defaultVariant = ''xtea'',
                  encryptBlock = xtea_encryptBlock, decryptBlock = xtea_decryptBlock\<rparr>"

text \<open>
  \<open>splitIntoBlocks(data, 8)\<close>, the only block size it is called with: two words per
  block, a short last block filled with 0, and one zero block for an empty array.
\<close>

fun split_words :: "word32 list \<Rightarrow> WordArray list" where
  "split_words (a # b # rest) = WordArray_create [a, b] 8 # split_words rest"
| "split_words [a] = [WordArray_create [a, 0] 8]"
| "split_words [] = []"

definition splitIntoBlocks :: "WordArray \<Rightarrow> WordArray list" where
  "splitIntoBlocks data =
     (if split_words (words data) = [] then [WordArray_create [0, 0] 8]
      else split_words (words data))"

text \<open>The loop \<open>result[i] ^= b.words[i]\<close> for \<open>i\<close> below both lengths.\<close>

fun xor_prefix :: "word32 list \<Rightarrow> word32 list \<Rightarrow> word32 list" where
  "xor_prefix (x # xs) (y # ys) = (x XOR y) # xor_prefix xs ys"
| "xor_prefix xs [] = xs"
| "xor_prefix [] ys = []"

definition xorBlocks :: "WordArray \<Rightarrow> WordArray \<Rightarrow> WordArray" where
  "xorBlocks a b = WordArray_create (xor_prefix (words a) (words b)) (sigBytes a)"

definition concatBlocks :: "WordArray list \<Rightarrow> WordArray" where
  "concatBlocks blocks =
     WordArray_create (concat (map words blocks)) (sum_list (map sigBytes blocks))"

text \<open>
  \<open>processBlocks\<close> maps the arrow function
  \<open>block => encrypt ? this.encryptBlock(block, key) : this.decryptBlock(block, key)\<close>,
  which is \<open>process_block\<close>, over the blocks.
\<close>

definition process_block :: "FeistelEngine \<Rightarrow> WordArray \<Rightarrow> bool \<Rightarrow> WordArray \<Rightarrow> WordArray" where
  "process_block eng key encrypt block =
     (if encrypt then encryptBlock eng block key else decryptBlock eng block key)"

definition processBlocks :: "FeistelEngine \<Rightarrow> WordArray \<Rightarrow> WordArray \<Rightarrow> bool \<Rightarrow> WordArray" where
  "processBlocks eng data key encrypt =
     concatBlocks (map (process_block eng key encrypt) (splitIntoBlocks data))"

definition encryptECB :: "FeistelEngine \<Rightarrow> WordArray \<Rightarrow> WordArray \<Rightarrow> string" where
  "encryptECB eng plaintext key = Hex_stringify (processBlocks eng plaintext key True)"

definition decryptECB :: "FeistelEngine \<Rightarrow> WordArray \<Rightarrow> WordArray \<Rightarrow> WordArray" where
  "decryptECB eng ciphertext key = processBlocks eng ciphertext key False"

text \<open>
  The loops of \<open>encryptCBC\<close> and \<open>decryptCBC\<close>, with \<open>previousBlock\<close> as an argument.
  The source computes \<open>encrypted\<close> once and uses it twice; it is written out twice here.
\<close>

fun encryptCBC_loop :: "FeistelEngine \<Rightarrow> WordArray \<Rightarrow> WordArray \<Rightarrow> WordArray list \<Rightarrow> WordArray list" where
  "encryptCBC_loop eng key previousBlock [] = []"
| "encryptCBC_loop eng key previousBlock (block # blocks) =
     encryptBlock eng (xorBlocks block previousBlock) key
       # encryptCBC_loop eng key (encryptBlock eng (xorBlocks block previousBlock) key) blocks"

definition encryptCBC :: "FeistelEngine \<Rightarrow> WordArray \<Rightarrow> WordArray \<Rightarrow> WordArray \<Rightarrow> string" where
  "encryptCBC eng plaintext key iv =
     Hex_stringify (concatBlocks (encryptCBC_loop eng key iv (splitIntoBlocks plaintext)))"

fun decryptCBC_loop :: "FeistelEngine \<Rightarrow> WordArray \<Rightarrow> WordArray \<Rightarrow> WordArray list \<Rightarrow> WordArray list" where
  "decryptCBC_loop eng key previousBlock [] = []"
| "decryptCBC_loop eng key previousBlock (block # blocks) =
     xorBlocks (decryptBlock eng block key) previousBlock # decryptCBC_loop eng key block blocks"

definition decryptCBC :: "FeistelEngine \<Rightarrow> WordArray \<Rightarrow> WordArray \<Rightarrow> WordArray \<Rightarrow> WordArray" where
  "decryptCBC eng ciphertext key iv =
     concatBlocks (decryptCBC_loop eng key iv (splitIntoBlocks ciphertext))"

section \<open>Engine facade: TEA and XTEA\<close>

definition feistel_validateKey :: "string \<Rightarrow> bool" where
  "feistel_validateKey key = Hex_sigBytes_is key 16"

definition feistel_validateIV :: "string \<Rightarrow> bool" where
  "feistel_validateIV iv = Hex_sigBytes_is iv 8"

definition feistel_metadata :: "string \<Rightarrow> string \<Rightarrow> OperationMetadata" where
  "feistel_metadata mode variant =
     \<lparr>keyLength = 128, ivLength = (if mode \<noteq> ''ECB'' then Some 8 else None),
      nonceLength = None, md_mode = Some mode, md_variant = Some variant\<rparr>"

definition invalid_key_message :: "FeistelEngine \<Rightarrow> string" where
  "invalid_key_message eng =
     ''Invalid '' @ engineName eng @ '' key. Must be exactly 16 bytes (128 bits)''"

definition mode_message :: "FeistelEngine \<Rightarrow> string \<Rightarrow> string" where
  "mode_message eng mode = ''Mode '' @ mode @ '' not implemented for '' @ engineName eng"

text \<open>The part of \<open>encrypt\<close> after the parameters are converted: the choice of the mode.\<close>

definition feistel_encrypt_mode ::
  "FeistelEngine \<Rightarrow> string \<Rightarrow> string \<Rightarrow> WordArray \<Rightarrow> WordArray \<Rightarrow> WordArray
     \<Rightarrow> string + CryptoOperation" where
  "feistel_encrypt_mode eng mode variant plaintextBytes keyBytes ivBytes =
     (if mode = ''ECB'' then
        Inr (succeed (encryptECB eng plaintextBytes keyBytes) (feistel_metadata mode variant))
      else if mode = ''CBC'' then
        Inr (succeed (encryptCBC eng plaintextBytes keyBytes ivBytes) (feistel_metadata mode variant))
      else Inl (mode_message eng mode))"

text \<open>
  The \<open>try\<close> block of \<open>encrypt\<close>. \<open>random8\<close> is the value that
  \<open>CryptoJS.lib.WordArray.random(8)\<close> returns in this call; it is used when no IV is given.
\<close>

definition feistel_encrypt_try ::
  "FeistelEngine \<Rightarrow> WordArray \<Rightarrow> EncryptionParams \<Rightarrow> string + CryptoOperation" where
  "feistel_encrypt_try eng random8 params =
     (if p_plaintext params = [] \<or> p_key params = [] then Inl ''Plaintext and key are required''
      else if \<not> feistel_validateKey (p_key params) then Inl (invalid_key_message eng)
      else feistel_encrypt_mode eng
             (default_to (p_mode params) ''CBC'')
             (default_to (p_variant params) (defaultVariant eng))
             (Utf8_parse (p_plaintext params))
             (Hex_parse (p_key params))
             (if given (p_iv params) then Hex_parse (the (p_iv params)) else random8))"

definition feistel_encrypt :: "FeistelEngine \<Rightarrow> WordArray \<Rightarrow> EncryptionParams \<Rightarrow> CryptoOperation" where
  "feistel_encrypt eng random8 params = catch_error (feistel_encrypt_try eng random8 params)"

definition feistel_decrypt_mode ::
  "FeistelEngine \<Rightarrow> string \<Rightarrow> string \<Rightarrow> WordArray \<Rightarrow> WordArray \<Rightarrow> WordArray option
     \<Rightarrow> string + CryptoOperation" where
  "feistel_decrypt_mode eng mode variant ciphertextBytes keyBytes ivBytes =
     (if mode = ''ECB'' then
        text_result (Utf8_stringify (decryptECB eng ciphertextBytes keyBytes))
          (feistel_metadata mode variant)
      else if mode = ''CBC'' then
        (if ivBytes = None then Inl ''IV is required for CBC mode''
         else text_result (Utf8_stringify (decryptCBC eng ciphertextBytes keyBytes (the ivBytes)))
                (feistel_metadata mode variant))
      else Inl (mode_message eng mode))"

definition feistel_decrypt_try ::
  "FeistelEngine \<Rightarrow> DecryptionParams \<Rightarrow> string + CryptoOperation" where
  "feistel_decrypt_try eng params =
     (if c_ciphertext params = [] \<or> c_key params = [] then Inl ''Ciphertext and key are required''
      else if \<not> feistel_validateKey (c_key params) then Inl (invalid_key_message eng)
      else feistel_decrypt_mode eng
             (default_to (c_mode params) ''CBC'')
             (default_to (c_variant params) (defaultVariant eng))
             (Hex_parse (c_ciphertext params))
             (Hex_parse (c_key params))
             (if given (c_iv params) then Some (Hex_parse (the (c_iv params))) else None))"

definition feistel_decrypt :: "FeistelEngine \<Rightarrow> DecryptionParams \<Rightarrow> CryptoOperation" where
  "feistel_decrypt eng params = catch_error (feistel_decrypt_try eng params)"

section \<open>ARX core: Salsa20 (salsa20.ts)\<close>

definition salsa_rotateLeft :: "word32 \<Rightarrow> nat \<Rightarrow> word32" where
  "salsa_rotateLeft v positions = push_bit positions v OR drop_bit (32 - positions) v"

text \<open>The statement \<open>state[b] ^= this.rotateLeft((state[a] + state[d]) >>> 0, n)\<close>.\<close>

definition st_xor_rotl_sum :: "nat \<Rightarrow> nat \<Rightarrow> nat \<Rightarrow> nat \<Rightarrow> word32 list \<Rightarrow> word32 list" where
  "st_xor_rotl_sum b a d n st = st[b := st ! b XOR salsa_rotateLeft (st ! a + st ! d) n]"

text \<open>\<open>quarterRound(state, a, b, c, d)\<close>, with the array as the last argument.\<close>

definition salsa_quarterRound :: "nat \<Rightarrow> nat \<Rightarrow> nat \<Rightarrow> nat \<Rightarrow> word32 list \<Rightarrow> word32 list" where
  "salsa_quarterRound a b c d =
     run_steps
       [st_xor_rotl_sum b a d 7, st_xor_rotl_sum c b a 9,
        st_xor_rotl_sum d c b 13, st_xor_rotl_sum a d c 18]"

text \<open>One pass of the round loop: the column round and the row round.\<close>

definition salsa_double_round :: "word32 list \<Rightarrow> word32 list" where
  "salsa_double_round =
     run_steps
       [salsa_quarterRound 0 4 8 12,
        salsa_quarterRound 5 9 13 1,
        salsa_quarterRound 10 14 2 6,
        salsa_quarterRound 15 3 7 11,
        salsa_quarterRound 0 1 2 3,
        salsa_quarterRound 5 6 7 4,
        salsa_quarterRound 10 11 8 9,
        salsa_quarterRound 15 12 13 14]"

text \<open>The idiom \<open>a[i] || d\<close>: the element if it is present and not 0, else \<open>d\<close>.\<close>

definition word_or :: "word32 list \<Rightarrow> nat \<Rightarrow> word32 \<Rightarrow> word32" where
  "word_or ws i d = (if i < length ws \<and> ws ! i \<noteq> 0 then ws ! i else d)"

definition salsa_constants :: "word32 list" where
  "salsa_constants = [0x61707865, 0x3320646e, 0x79622d32, 0x6b206574]"

text \<open>
  The sixteen assignments that set up \<open>state\<close> in \<open>salsa20Block\<close>. The counter is the
  loop index of \<open>generateKeystream\<close>, a JavaScript number; every later use of
  \<open>state[8]\<close> is under \<open>>>> 0\<close> or \<open>^=\<close>, that is modulo \<open>2^32\<close>.
\<close>

definition salsa_init_state :: "WordArray \<Rightarrow> WordArray \<Rightarrow> nat \<Rightarrow> word32 list" where
  "salsa_init_state key nonce counter =
     [salsa_constants ! 0,
      word_or_0 (words key) 0,
      word_or_0 (words key) 1,
      word_or_0 (words key) 2,
      word_or_0 (words key) 3,
      salsa_constants ! 1,
      word_or_0 (words nonce) 0,
      word_or_0 (words nonce) 1,
      of_nat counter,
      0,
      salsa_constants ! 2,
      word_or (words key) 4 (word_or_0 (words key) 0),
      word_or (words key) 5 (word_or_0 (words key) 1),
      word_or (words key) 6 (word_or_0 (words key) 2),
      word_or (words key) 7 (word_or_0 (words key) 3),
      salsa_constants ! 3]"

text \<open>
  \<open>salsa20Block\<close> after the state is set up. The loop \<open>for (i = 0; i < rounds; i += 2)\<close>
  runs \<open>(rounds + 1) div 2\<close> times.
\<close>

definition salsa_block_of_state :: "nat \<Rightarrow> word32 list \<Rightarrow> word32 list" where
  "salsa_block_of_state rounds state =
     add_original_state (repeat_n ((rounds + 1) div 2) salsa_double_round state) state"

definition salsa20Block :: "WordArray \<Rightarrow> WordArray \<Rightarrow> nat \<Rightarrow> nat \<Rightarrow> word32 list" where
  "salsa20Block key nonce counter rounds =
     salsa_block_of_state rounds (salsa_init_state key nonce counter)"

text \<open>
  \<open>generateKeystream\<close>, with the block function as the parameter \<open>blk\<close>
  (\<open>Salsa20Engine_generateKeystream\<close> fixes it to \<open>salsa20Block\<close>).
\<close>

definition generateKeystream_with ::
  "(WordArray \<Rightarrow> WordArray \<Rightarrow> nat \<Rightarrow> nat \<Rightarrow> word32 list)
     \<Rightarrow> WordArray \<Rightarrow> WordArray \<Rightarrow> nat \<Rightarrow> nat \<Rightarrow> WordArray" where
  "generateKeystream_with blk key nonce len rounds =
     WordArray_create
       (take ((len + 3) div 4)
          (concat (map (\<lambda>i. blk key nonce i rounds) [0..<(len + 63) div 64])))
       len"

definition generateKeystream :: "WordArray \<Rightarrow> WordArray \<Rightarrow> nat \<Rightarrow> nat \<Rightarrow> WordArray" where
  "generateKeystream = generateKeystream_with salsa20Block"

definition xorWithKeystream :: "WordArray \<Rightarrow> WordArray \<Rightarrow> WordArray" where
  "xorWithKeystream data keystream =
     WordArray_create (xor_prefix (words data) (words keystream)) (sigBytes data)"

text \<open>
  \<open>getRoundsFromVariant\<close> is \<open>variantMap[variant] || 20\<close> on an object literal. A variant
  that names a property every object inherits (\<open>toString\<close>, \<open>constructor\<close>, ...) reads
  that property, which is not a number: the round loop's test \<open>i < rounds\<close> is then
  false at once, which is 0 rounds.
\<close>

definition object_prototype_names :: "string list" where
  "object_prototype_names =
     [''constructor'', ''hasOwnProperty'', ''isPrototypeOf'', ''propertyIsEnumerable'',
      ''toLocaleString'', ''toString'', ''valueOf'', ''__proto__'', ''__defineGetter__'',
      ''__defineSetter__'', ''__lookupGetter__'', ''__lookupSetter__'']"

definition getRoundsFromVariant :: "string \<Rightarrow> nat" where
  "getRoundsFromVariant variant =
     (if variant = ''salsa20/8'' then 8
      else if variant = ''salsa20/12'' then 12
      else if variant = ''salsa20/20'' then 20
      else if variant \<in> set object_prototype_names then 0
      else 20)"

section \<open>Engine facade: Salsa20\<close>

definition salsa_validateKey :: "string \<Rightarrow> bool" where
  "salsa_validateKey key = (Hex_sigBytes_is key 16 \<or> Hex_sigBytes_is key 32)"

definition salsa_validateNonce :: "string \<Rightarrow> bool" where
  "salsa_validateNonce nonce = Hex_sigBytes_is nonce 8"

definition salsa_metadata :: "WordArray \<Rightarrow> string \<Rightarrow> OperationMetadata" where
  "salsa_metadata keyBytes variant =
     \<lparr>keyLength = sigBytes keyBytes * 8, ivLength = None, nonceLength = Some 8,
      md_mode = None, md_variant = Some variant\<rparr>"

text \<open>The part of \<open>encrypt\<close> and of \<open>decrypt\<close> after the parameters are converted.\<close>

definition salsa_apply ::
  "(WordArray \<Rightarrow> WordArray \<Rightarrow> nat \<Rightarrow> nat \<Rightarrow> word32 list)
     \<Rightarrow> WordArray \<Rightarrow> WordArray \<Rightarrow> WordArray \<Rightarrow> nat \<Rightarrow> WordArray" where
  "salsa_apply blk keyBytes nonceBytes dataBytes rounds =
     xorWithKeystream dataBytes
       (generateKeystream_with blk keyBytes nonceBytes (sigBytes dataBytes) rounds)"

definition salsa_encrypt_try ::
  "(WordArray \<Rightarrow> WordArray \<Rightarrow> nat \<Rightarrow> nat \<Rightarrow> word32 list)
     \<Rightarrow> EncryptionParams \<Rightarrow> string + CryptoOperation" where
  "salsa_encrypt_try blk params =
     (if p_plaintext params = [] \<or> p_key params = [] then Inl ''Plaintext and key are required''
      else if \<not> given (p_nonce params) then Inl ''Nonce is required for Salsa20''
      else if \<not> salsa_validateKey (p_key params) then
        Inl ''Invalid Salsa20 key. Must be 16 or 32 bytes''
      else if \<not> salsa_validateNonce (the (p_nonce params)) then
        Inl ''Invalid Salsa20 nonce. Must be 8 bytes''
      else Inr (succeed
                  (Hex_stringify
                     (salsa_apply blk (Hex_parse (p_key params)) (Hex_parse (the (p_nonce params)))
                        (Utf8_parse (p_plaintext params))
                        (getRoundsFromVariant (default_to (p_variant params) ''salsa20/20''))))
                  (salsa_metadata (Hex_parse (p_key params))
                     (default_to (p_variant params) ''salsa20/20''))))"

definition salsa_encrypt_with ::
  "(WordArray \<Rightarrow> WordArray \<Rightarrow> nat \<Rightarrow> nat \<Rightarrow> word32 list)
     \<Rightarrow> EncryptionParams \<Rightarrow> CryptoOperation" where
  "salsa_encrypt_with blk params = catch_error (salsa_encrypt_try blk params)"

definition Salsa20Engine_encrypt :: "EncryptionParams \<Rightarrow> CryptoOperation" where
  "Salsa20Engine_encrypt = salsa_encrypt_with salsa20Block"

definition salsa_decrypt_try ::
  "(WordArray \<Rightarrow> WordArray \<Rightarrow> nat \<Rightarrow> nat \<Rightarrow> word32 list)
     \<Rightarrow> DecryptionParams \<Rightarrow> string + CryptoOperation" where
  "salsa_decrypt_try blk params =
     (if c_ciphertext params = [] \<or> c_key params = [] then Inl ''Ciphertext and key are required''
      else if \<not> given (c_nonce params) then Inl ''Nonce is required for Salsa20''
      else if \<not> salsa_validateKey (c_key params) then
        Inl ''Invalid Salsa20 key. Must be 16 or 32 bytes''
      else if \<not> salsa_validateNonce (the (c_nonce params)) then
        Inl ''Invalid Salsa20 nonce. Must be 8 bytes''
      else text_result
             (Utf8_stringify
                (salsa_apply blk (Hex_parse (c_key params)) (Hex_parse (the (c_nonce params)))
                   (Hex_parse (c_ciphertext params))
                   (getRoundsFromVariant (default_to (c_variant params) ''salsa20/20''))))
             (salsa_metadata (Hex_parse (c_key params))
                (default_to (c_variant params) ''salsa20/20'')))"

definition salsa_decrypt_with ::
  "(WordArray \<Rightarrow> WordArray \<Rightarrow> nat \<Rightarrow> nat \<Rightarrow> word32 list)
     \<Rightarrow> DecryptionParams \<Rightarrow> CryptoOperation" where
  "salsa_decrypt_with blk params = catch_error (salsa_decrypt_try blk params)"

definition Salsa20Engine_decrypt :: "DecryptionParams \<Rightarrow> CryptoOperation" where
  "Salsa20Engine_decrypt = salsa_decrypt_with salsa20Block"

section \<open>Engine facade: ChaCha20 (class \<open>ChaCha20Engine\<close>, crypto-utils.ts)\<close>

definition isValidHex :: "string \<Rightarrow> bool" where
  "isValidHex str = (list_all isHexDigit str \<and> length str mod 2 = 0)"

text \<open>\<open>validateKeyLength(key, validLengths, 'hex')\<close>, the only format it is called with.\<close>

definition validateKeyLength :: "string \<Rightarrow> nat list \<Rightarrow> bool" where
  "validateKeyLength key validLengths =
     (if \<not> isValidHex key then False else length key div 2 \<in> set validLengths)"

definition chacha_validateKey :: "string \<Rightarrow> bool" where
  "chacha_validateKey key = validateKeyLength key [32]"

definition chacha_validateNonce :: "string \<Rightarrow> bool" where
  "chacha_validateNonce nonce = validateKeyLength nonce [12]"

text \<open>A number stored into a \<open>Uint8Array\<close>: \<open>NaN\<close> is 0, an integer is taken modulo 256.\<close>

definition toUint8 :: "int option \<Rightarrow> byte" where
  "toUint8 v = (case v of None \<Rightarrow> 0 | Some n \<Rightarrow> of_int n)"

definition hexToUint8Array :: "string \<Rightarrow> byte list" where
  "hexToUint8Array hex =
     map (\<lambda>j. toUint8 (parseInt16 (substr2 hex (2 * j)))) [0..<length hex div 2]"

text \<open>\<open>byte.toString(16).padStart(2, '0')\<close> for every byte, joined.\<close>

definition uint8ArrayToHex :: "byte list \<Rightarrow> string" where
  "uint8ArrayToHex bytes =
     concat (map (\<lambda>b. [hexDigitChar (ucast (drop_bit 4 b)), hexDigitChar (ucast (b AND 0x0f))]) bytes)"

definition chacha_metadata :: OperationMetadata where
  "chacha_metadata =
     \<lparr>keyLength = 32, ivLength = None, nonceLength = Some 12,
      md_mode = Some ''Stream'', md_variant = Some ''chacha20''\<rparr>"

text \<open>
  \<open>ChaCha20Engine.encrypt\<close> and \<open>decrypt\<close>, with the block function as the parameter
  \<open>blk\<close>. Their validation failures are returned, not thrown, and nothing in the
  \<open>try\<close> block throws on a string input.
\<close>

definition chacha_encrypt_facade ::
  "(byte list \<Rightarrow> byte list \<Rightarrow> nat \<Rightarrow> byte list) \<Rightarrow> EncryptionParams \<Rightarrow> CryptoOperation" where
  "chacha_encrypt_facade blk params =
     (if \<not> chacha_validateKey (p_key params) then
        failure ''Invalid key length. Expected 32 bytes (64 hex characters).''
      else if \<not> given (p_nonce params) \<or> \<not> chacha_validateNonce (the (p_nonce params)) then
        failure ''Invalid nonce length. Expected 12 bytes (24 hex characters).''
      else succeed
             (uint8ArrayToHex
                (chacha_encrypt_with blk (TextEncoder_encode (p_plaintext params))
                   (hexToUint8Array (p_key params)) (hexToUint8Array (the (p_nonce params)))))
             chacha_metadata)"

definition ChaCha20Engine_encrypt :: "EncryptionParams \<Rightarrow> CryptoOperation" where
  "ChaCha20Engine_encrypt = chacha_encrypt_facade chacha20Block"

definition chacha_decrypt_facade ::
  "(byte list \<Rightarrow> byte list \<Rightarrow> nat \<Rightarrow> byte list) \<Rightarrow> DecryptionParams \<Rightarrow> CryptoOperation" where
  "chacha_decrypt_facade blk params =
     (if \<not> chacha_validateKey (c_key params) then
        failure ''Invalid key length. Expected 32 bytes (64 hex characters).''
      else if \<not> given (c_nonce params) \<or> \<not> chacha_validateNonce (the (c_nonce params)) then
        failure ''Invalid nonce length. Expected 12 bytes (24 hex characters).''
      else if \<not> isValidHex (c_ciphertext params) then
        failure ''Invalid ciphertext format. Must be valid hexadecimal.''
      else succeed
             (TextDecoder_decode
                (chacha_encrypt_with blk (hexToUint8Array (c_ciphertext params))
                   (hexToUint8Array (c_key params)) (hexToUint8Array (the (c_nonce params)))))
             chacha_metadata)"

definition ChaCha20Engine_decrypt :: "DecryptionParams \<Rightarrow> CryptoOperation" where
  "ChaCha20Engine_decrypt = chacha_decrypt_facade chacha20Block"

section \<open>Registry (class \<open>CipherRegistry\<close>)\<close>

text \<open>
  The registry keeps two \<open>Map\<close>s from identifiers to engines and to metadata. An engine
  is its metadata and its methods, which the registry never looks at (the type \<open>'m\<close>).
\<close>

record CipherMetadata =
  cipher_id :: string
  cipher_name :: string
  category :: string

record 'm CipherEngine =
  metadata :: CipherMetadata
  methods :: 'm

record 'm CipherRegistry =
  engines :: "string \<rightharpoonup> 'm CipherEngine"
  registry_metadata :: "string \<rightharpoonup> CipherMetadata"

definition empty_registry :: "'m CipherRegistry" where
  "empty_registry = \<lparr>engines = Map.empty, registry_metadata = Map.empty\<rparr>"

definition register :: "'m CipherRegistry \<Rightarrow> 'm CipherEngine \<Rightarrow> 'm CipherRegistry" where
  "register reg engine =
     \<lparr>engines = (engines reg)(cipher_id (metadata engine) \<mapsto> engine),
      registry_metadata = (registry_metadata reg)(cipher_id (metadata engine) \<mapsto> metadata engine)\<rparr>"

definition getEngine :: "'m CipherRegistry \<Rightarrow> string \<Rightarrow> 'm CipherEngine option" where
  "getEngine reg i = engines reg i"

definition getMetadata :: "'m CipherRegistry \<Rightarrow> string \<Rightarrow> CipherMetadata option" where
  "getMetadata reg i = registry_metadata reg i"

definition exists_cipher :: "'m CipherRegistry \<Rightarrow> string \<Rightarrow> bool" where
  "exists_cipher reg i = (i \<in> dom (engines reg))"

text \<open>The static initialiser: every engine of a list registered in order on the empty maps.\<close>

definition register_all :: "'m CipherEngine list \<Rightarrow> 'm CipherRegistry" where
  "register_all es = foldl register empty_registry es"

section \<open>Structured results\<close>

text \<open>
  A structured result: the success flag is set and a result is present, or the flag is
  not set and an error message is present.
\<close>

definition structured :: "CryptoOperation \<Rightarrow> bool" where
  "structured r =
     ((success r \<longrightarrow> result r \<noteq> None \<and> error r = None)
      \<and> (\<not> success r \<longrightarrow> error r \<noteq> None \<and> result r = None))"

section \<open>Sample inputs\<close>

text \<open>Two engines that declare the same identifier.\<close>

definition tea_first :: "nat CipherEngine" where
  "tea_first = \<lparr>metadata = \<lparr>cipher_id = ''tea'', cipher_name = ''TEA'', category = ''symmetric''\<rparr>,
                 methods = 1\<rparr>"

definition tea_second :: "nat CipherEngine" where
  "tea_second = \<lparr>metadata = \<lparr>cipher_id = ''tea'', cipher_name = ''TEA again'', category = ''symmetric''\<rparr>,
                  methods = 2\<rparr>"

text \<open>Parameters for the engines.\<close>

definition sample_random8 :: WordArray where
  "sample_random8 = \<lparr>words = [0x01234567, 0x89abcdef], sigBytes = 8\<rparr>"


definition sample_key16 :: string where
  "sample_key16 = ''000102030405060708090a0b0c0d0e0f''"

definition sample_key15 :: string where
  "sample_key15 = ''000102030405060708090a0b0c0d0e''"

definition sample_key32 :: string where
  "sample_key32 = ''000102030405060708090a0b0c0d0e0f101112131415161718191a1b1c1d1e1f''"

definition sample_nonce8 :: string where
  "sample_nonce8 = ''0001020304050607''"

definition sample_nonce12 :: string where
  "sample_nonce12 = ''000000090000004a00000000''"

definition sample_empty :: EncryptionParams where
  "sample_empty = \<lparr>p_plaintext = [], p_key = sample_key32, p_iv = None,
       p_nonce = Some sample_nonce12, p_mode = None, p_variant = None\<rparr>"

definition sample_encrypt_no_iv :: EncryptionParams where
  "sample_encrypt_no_iv = \<lparr>p_plaintext = ''ABCDEFGH'', p_key = sample_key16, p_iv = None,
       p_nonce = None, p_mode = Some ''CBC'', p_variant = None\<rparr>"

definition sample_decrypt_no_iv :: DecryptionParams where
  "sample_decrypt_no_iv = \<lparr>c_ciphertext = ''0011223344556677'', c_key = sample_key16,
       c_iv = None, c_nonce = None, c_mode = None, c_variant = None\<rparr>"

definition sample_short_key :: EncryptionParams where
  "sample_short_key = \<lparr>p_plaintext = ''ABCDEFGH'', p_key = sample_key15, p_iv = None,
       p_nonce = Some sample_nonce8, p_mode = None, p_variant = None\<rparr>"

section \<open>Byte sequences\<close>

text \<open>
  The notions below are not functions of the program: they name the byte sequences that
  the statements about it speak of.

  A CryptoJS word holds four bytes, the most significant first: \<open>be_word\<close> builds the
  word, \<open>be_bytes32\<close> reads its bytes back. \<open>le_bytes32\<close> is the other order, the least
  significant byte first, which the ChaCha20 class uses for its \<open>Uint8Array\<close>s.
\<close>

definition be_word :: "byte \<Rightarrow> byte \<Rightarrow> byte \<Rightarrow> byte \<Rightarrow> word32" where
  "be_word a b c d = push_bit 24 (ucast a) OR push_bit 16 (ucast b) OR push_bit 8 (ucast c) OR ucast d"

definition be_bytes32 :: "word32 \<Rightarrow> byte list" where
  "be_bytes32 w = [ucast (drop_bit 24 w), ucast (drop_bit 16 w), ucast (drop_bit 8 w), ucast w]"

definition le_bytes32 :: "word32 \<Rightarrow> byte list" where
  "le_bytes32 w = [ucast w, ucast (drop_bit 8 w), ucast (drop_bit 16 w), ucast (drop_bit 24 w)]"

text \<open>
  \<open>pack_be\<close> packs a byte sequence into words, the last word padded with zero bytes;
  \<open>unpack_be\<close> lists the bytes of a sequence of words; \<open>wa_bytes\<close> is the byte sequence
  that a \<open>WordArray\<close> stands for, its first \<open>sigBytes\<close> bytes.
\<close>

fun pack_be :: "byte list \<Rightarrow> word32 list" where
  "pack_be (a # b # c # d # r) = be_word a b c d # pack_be r"
| "pack_be [a, b, c] = [be_word a b c 0]"
| "pack_be [a, b] = [be_word a b 0 0]"
| "pack_be [a] = [be_word a 0 0 0]"
| "pack_be [] = []"

definition unpack_be :: "word32 list \<Rightarrow> byte list" where
  "unpack_be ws = concat (map be_bytes32 ws)"

definition wa_bytes :: "WordArray \<Rightarrow> byte list" where
  "wa_bytes wa = map (\<lambda>i. ucast (wa_byte wa i)) [0..<sigBytes wa]"

text \<open>The two hexadecimal digits of a byte, and the digit character of a number below 16.\<close>

definition hex_pair :: "byte \<Rightarrow> string" where
  "hex_pair b = [hexDigitChar (ucast (drop_bit 4 b)), hexDigitChar (ucast (b AND 0x0f))]"

definition hexc :: "nat \<Rightarrow> char" where
  "hexc k = (if k < 10 then char_of (48 + k) else char_of (87 + k))"

text \<open>A block of the two Feistel ciphers: two words, eight bytes.\<close>

definition block8 :: "WordArray \<Rightarrow> bool" where
  "block8 b = (length (words b) = 2 \<and> sigBytes b = 8)"

section \<open>Feistel core: single blocks\<close>

lemma tea_dec_enc_round: "tea_dec_round k0 k1 k2 k3 (tea_enc_round k0 k1 k2 k3 s) = s"
  by (cases s) (simp add: tea_dec_round_def tea_enc_round_def Let_def)

lemma tea_dec_enc_rounds:
  "(tea_dec_round k0 k1 k2 k3 ^^ n) ((tea_enc_round k0 k1 k2 k3 ^^ n) s) = s"
proof (induction n arbitrary: s)
  case 0
  show ?case by simp
next
  case (Suc n)
  have "(tea_dec_round k0 k1 k2 k3 ^^ Suc n) ((tea_enc_round k0 k1 k2 k3 ^^ Suc n) s)
          = (tea_dec_round k0 k1 k2 k3 ^^ n)
              (tea_dec_round k0 k1 k2 k3 (tea_enc_round k0 k1 k2 k3
                 ((tea_enc_round k0 k1 k2 k3 ^^ n) s)))"
    by (simp add: funpow_swap1)
  also have "\<dots> = (tea_dec_round k0 k1 k2 k3 ^^ n) ((tea_enc_round k0 k1 k2 k3 ^^ n) s)"
    by (simp only: tea_dec_enc_round)
  finally show ?case using Suc.IH by simp
qed

lemma tea_enc_round_sum:
  "snd (snd (tea_enc_round k0 k1 k2 k3 s)) = snd (snd s) + TEA_DELTA"
  by (cases s) (simp add: tea_enc_round_def Let_def)

lemma tea_enc_rounds_sum:
  "snd (snd ((tea_enc_round k0 k1 k2 k3 ^^ n) s)) = snd (snd s) + TEA_DELTA * of_nat n"
proof (induction n)
  case 0
  show ?case by simp
next
  case (Suc n)
  have "snd (snd ((tea_enc_round k0 k1 k2 k3 ^^ Suc n) s))
          = snd (snd ((tea_enc_round k0 k1 k2 k3 ^^ n) s)) + TEA_DELTA"
    by (simp add: tea_enc_round_sum)
  with Suc show ?case
    by (simp add: algebra_simps)
qed

lemma tea_decryptBlock_encryptBlock:
  "tea_decryptBlock (tea_encryptBlock block key) key
     = WordArray_create [word_or_0 (words block) 0, word_or_0 (words block) 1] 8"
proof -
  let ?k0 = "word_or_0 (words key) 0" and ?k1 = "word_or_0 (words key) 1"
  let ?k2 = "word_or_0 (words key) 2" and ?k3 = "word_or_0 (words key) 3"
  let ?s = "(word_or_0 (words block) 0, word_or_0 (words block) 1, 0 :: word32)"
  let ?e = "(tea_enc_round ?k0 ?k1 ?k2 ?k3 ^^ TEA_ROUNDS) ?s"
  obtain a b c where abc: "?e = (a, b, c)"
    by (cases ?e) auto
  have c: "c = TEA_DELTA * of_nat TEA_ROUNDS"
    using tea_enc_rounds_sum [where ?k0.0 = ?k0 and ?k1.0 = ?k1 and ?k2.0 = ?k2 and ?k3.0 = ?k3
        and n = TEA_ROUNDS and s = ?s] abc by simp
  have enc: "tea_encryptBlock block key = WordArray_create [a, b] 8"
    using abc by (simp add: tea_encryptBlock_def Let_def)
  have "(tea_dec_round ?k0 ?k1 ?k2 ?k3 ^^ TEA_ROUNDS) (a, b, TEA_DELTA * of_nat TEA_ROUNDS) = ?s"
    using tea_dec_enc_rounds [where ?k0.0 = ?k0 and ?k1.0 = ?k1 and ?k2.0 = ?k2 and ?k3.0 = ?k3
        and n = TEA_ROUNDS and s = ?s] abc c by simp
  then show ?thesis
    by (simp add: enc tea_decryptBlock_def Let_def WordArray_create_def word_or_0_def)
qed

text \<open>
  Claim C2 says that for TEA and for XTEA \<open>decryptBlock (encryptBlock block key) key\<close> is
  \<open>block\<close> for every 8-byte block and 16-byte key. TEA does this
  (\<open>tea_decryptBlock_encryptBlock\<close>). XTEA does not: with the all-zero block and the
  all-zero key, decrypting the encrypted block returns the words \<open>9BF3FD39 CE81477D\<close>
  and not the zero block, because each round computes \<open>(v + f) XOR k\<close> and the decryption
  round computes \<open>(v - f) XOR k\<close>, which does not undo it.
\<close>

theorem xtea_decryptBlock_not_inverse:
  "xtea_decryptBlock
     (xtea_encryptBlock \<lparr>words = [0, 0], sigBytes = 8\<rparr> \<lparr>words = [0, 0, 0, 0], sigBytes = 16\<rparr>)
     \<lparr>words = [0, 0, 0, 0], sigBytes = 16\<rparr>
   = \<lparr>words = [0x9BF3FD39, 0xCE81477D], sigBytes = 8\<rparr>"
  by code_simp


section \<open>ChaCha20: the RFC 8439 block\<close>
lemma chacha_tv3_init:
  "chacha_init_state (replicate 31 0 @ [1]) (replicate 12 0) 1
     = [1634760805, 857760878, 2036477234, 1797285236, 0, 0, 0, 0, 0, 0, 0, 16777216,
        1, 0, 0, 0]"
  by code_simp

lemma chacha_tv3_round_1:
  "chacha_double_round
     [1634760805, 857760878, 2036477234, 1797285236, 0, 0, 0, 0, 0, 0, 0, 16777216,
      1, 0, 0, 0]
   = [3546272073, 4276625593, 3165055576, 2390702478, 3393702514, 4281389584,
      2709964901, 3922177967, 3895320561, 4097566385, 285804185, 1257740813,
      733910252, 2127735217, 2609866809, 2278891842]"
  by code_simp

lemma chacha_tv3_round_2:
  "chacha_double_round
     [3546272073, 4276625593, 3165055576, 2390702478, 3393702514, 4281389584,
      2709964901, 3922177967, 3895320561, 4097566385, 285804185, 1257740813,
      733910252, 2127735217, 2609866809, 2278891842]
   = [3693591723, 3135150039, 51378369, 702492359, 2930020901, 2961704709,
      3520280160, 4251970236, 89930533, 4072573425, 914016880, 3749262385,
      1748204081, 3429467403, 4189482683, 3120281413]"
  by code_simp

lemma chacha_tv3_round_3:
  "chacha_double_round
     [3693591723, 3135150039, 51378369, 702492359, 2930020901, 2961704709,
      3520280160, 4251970236, 89930533, 4072573425, 914016880, 3749262385,
      1748204081, 3429467403, 4189482683, 3120281413]
   = [2394878168, 2031973257, 1284578414, 1899304081, 1465443138, 492932773,
      322103377, 2173126333, 2087480045, 1165951764, 1533865308, 4206212779,
      339642943, 3393720902, 2614908664, 2912919104]"
  by code_simp

lemma chacha_tv3_round_4:
  "chacha_double_round
     [2394878168, 2031973257, 1284578414, 1899304081, 1465443138, 492932773,
      322103377, 2173126333, 2087480045, 1165951764, 1533865308, 4206212779,
      339642943, 3393720902, 2614908664, 2912919104]
   = [1391073397, 3283704492, 394807770, 1839489693, 3246088191, 2581886109,
      891579424, 1099913752, 807706715, 3975430240, 1515804805, 451693265,
      3588976964, 1890222108, 2368279673, 18143947]"
  by code_simp

lemma chacha_tv3_round_5:
  "chacha_double_round
     [1391073397, 3283704492, 394807770, 1839489693, 3246088191, 2581886109,
      891579424, 1099913752, 807706715, 3975430240, 1515804805, 451693265,
      3588976964, 1890222108, 2368279673, 18143947]
   = [716991722, 645923810, 4168076468, 1572830906, 1984185714, 1718418491,
      2873141641, 1356621764, 483789825, 3824124251, 1574139833, 359316323,
      3277162391, 3922991227, 329557317, 2055999600]"
  by code_simp

lemma chacha_tv3_round_6:
  "chacha_double_round
     [716991722, 645923810, 4168076468, 1572830906, 1984185714, 1718418491,
      2873141641, 1356621764, 483789825, 3824124251, 1574139833, 359316323,
      3277162391, 3922991227, 329557317, 2055999600]
   = [3809695975, 596111332, 2464096784, 763767930, 4209612569, 2282920975,
      2059979989, 3051314295, 4135011526, 3904759261, 3697107527, 2414235171,
      1801979596, 1269452364, 3197257745, 2154707421]"
  by code_simp

lemma chacha_tv3_round_7:
  "chacha_double_round
     [3809695975, 596111332, 2464096784, 763767930, 4209612569, 2282920975,
      2059979989, 3051314295, 4135011526, 3904759261, 3697107527, 2414235171,
      1801979596, 1269452364, 3197257745, 2154707421]
   = [1126439816, 2898948064, 3503482740, 3199328933, 2709921175, 2487118635,
      919323546, 3869623623, 1587456441, 3284751105, 3748926205, 889050810,
      466505068, 4154279356, 3347496822, 179700952]"
  by code_simp

lemma chacha_tv3_round_8:
  "chacha_double_round
     [1126439816, 2898948064, 3503482740, 3199328933, 2709921175, 2487118635,
      919323546, 3869623623, 1587456441, 3284751105, 3748926205, 889050810,
      466505068, 4154279356, 3347496822, 179700952]
   = [1867519587, 3975411467, 1026716497, 2755463990, 3140596069, 3628778576,
      574309947, 817932403, 951053499, 110630320, 3455359386, 4045874248, 4011033700,
      4256053723, 889331528, 3149179729]"
  by code_simp

lemma chacha_tv3_round_9:
  "chacha_double_round
     [1867519587, 3975411467, 1026716497, 2755463990, 3140596069, 3628778576,
      574309947, 817932403, 951053499, 110630320, 3455359386, 4045874248, 4011033700,
      4256053723, 889331528, 3149179729]
   = [1906717848, 996435852, 3932735041, 2848700584, 2012309235, 1594622655,
      2205192767, 559090782, 2387420918, 2487864317, 3764525823, 3642843778,
      1005199732, 1411506255, 2530949565, 3903187551]"
  by code_simp

lemma chacha_tv3_round_10:
  "chacha_double_round
     [1906717848, 996435852, 3932735041, 2848700584, 2012309235, 1594622655,
      2205192767, 559090782, 2387420918, 2487864317, 3764525823, 3642843778,
      1005199732, 1411506255, 2530949565, 3903187551]
   = [3269620437, 1596560510, 337670249, 1924426045, 3894747267, 1619102465,
      4085523128, 1521109449, 3137391246, 3661342644, 3300233937, 4243747631,
      1144399693, 627160008, 3957148326, 2685627392]"
  by code_simp

lemma chacha_tv3_add:
  "add_original_state
     [3269620437, 1596560510, 337670249, 1924426045, 3894747267, 1619102465,
      4085523128, 1521109449, 3137391246, 3661342644, 3300233937, 4243747631,
      1144399693, 627160008, 3957148326, 2685627392]
     [1634760805, 857760878, 2036477234, 1797285236, 0, 0, 0, 0, 0, 0, 0, 16777216,
      1, 0, 0, 0]
   = [609413946, 2454321388, 2374147483, 3721711281, 3894747267, 1619102465,
      4085523128, 1521109449, 3137391246, 3661342644, 3300233937, 4260524847,
      1144399694, 627160008, 3957148326, 2685627392]"
  by code_simp

lemma chacha_tv3_bytes:
  "chacha_to_bytes
     [609413946, 2454321388, 2374147483, 3721711281, 3894747267, 1619102465,
      4085523128, 1521109449, 3137391246, 3661342644, 3300233937, 4260524847,
      1144399694, 627160008, 3957148326, 2685627392]
   = [0x3a, 0xeb, 0x52, 0x24, 0xec, 0xf8, 0x49, 0x92, 0x9b, 0x9d, 0x82, 0x8d, 0xb1,
      0xce, 0xd4, 0xdd, 0x83, 0x20, 0x25, 0xe8, 0x01, 0x8b, 0x81, 0x60, 0xb8, 0x22,
      0x84, 0xf3, 0xc9, 0x49, 0xaa, 0x5a, 0x8e, 0xca, 0x00, 0xbb, 0xb4, 0xa7, 0x3b,
      0xda, 0xd1, 0x92, 0xb5, 0xc4, 0x2f, 0x73, 0xf2, 0xfd, 0x4e, 0x27, 0x36, 0x44,
      0xc8, 0xb3, 0x61, 0x25, 0xa6, 0x4a, 0xdd, 0xeb, 0x00, 0x6c, 0x13, 0xa0]"
  by code_simp


lemma repeat_n_10: "repeat_n 10 f x = f (f (f (f (f (f (f (f (f (f x)))))))))"
  by (simp add: eval_nat_numeral)

text \<open>
  Claim C3: with the key of 31 zero bytes followed by the byte 1, the all-zero 12-byte
  nonce and block counter 1, \<open>chacha20Block\<close> returns the 64-byte keystream block
  published in RFC 8439 (appendix A.1, test vector 3).
\<close>

theorem chacha20Block_rfc8439_vector:
  "chacha20Block rfc8439_key rfc8439_nonce 1 = rfc8439_keystream"
  unfolding chacha20Block_def chacha_block_of_state_def rfc8439_key_def rfc8439_nonce_def
    rfc8439_keystream_def repeat_n_10
  by (simp only: chacha_tv3_init chacha_tv3_round_1 chacha_tv3_round_2
      chacha_tv3_round_3 chacha_tv3_round_4 chacha_tv3_round_5 chacha_tv3_round_6
      chacha_tv3_round_7 chacha_tv3_round_8 chacha_tv3_round_9 chacha_tv3_round_10
      chacha_tv3_add chacha_tv3_bytes)

section \<open>Registry\<close>

lemma register_other:
  "i \<noteq> cipher_id (metadata e) \<Longrightarrow>
     engines (register reg e) i = engines reg i
     \<and> registry_metadata (register reg e) i = registry_metadata reg i"
  by (simp add: register_def)

lemma engines_register_all_aux:
  "i \<notin> set (map (\<lambda>e. cipher_id (metadata e)) es) \<Longrightarrow>
     engines (foldl register reg es) i = engines reg i
     \<and> registry_metadata (foldl register reg es) i = registry_metadata reg i"
proof (induction es arbitrary: reg)
  case Nil
  show ?case by simp
next
  case (Cons e es)
  then have ne: "i \<noteq> cipher_id (metadata e)"
    and rest: "i \<notin> set (map (\<lambda>e. cipher_id (metadata e)) es)"
    by auto
  have "engines (foldl register (register reg e) es) i = engines (register reg e) i
        \<and> registry_metadata (foldl register (register reg e) es) i
            = registry_metadata (register reg e) i"
    using Cons.IH [OF rest] .
  with register_other [OF ne, of reg] show ?case
    by simp
qed

text \<open>
  Claim C9: \<open>register\<close> stores the engine and its metadata under the identifier the
  engine's metadata declares; a later registration under the same identifier replaces
  the earlier one, and \<open>register\<close> has no failure result; \<open>getEngine\<close> and
  \<open>getMetadata\<close> return \<open>None\<close> (the absent value \<open>undefined\<close>) for an identifier
  that no registered engine declares.
\<close>

theorem registry_register_lookup:
  fixes reg :: "'m CipherRegistry"
  shows "getEngine (register reg e) (cipher_id (metadata e)) = Some e
    \<and> getMetadata (register reg e) (cipher_id (metadata e)) = Some (metadata e)
    \<and> (cipher_id (metadata e2) = cipher_id (metadata e) \<longrightarrow>
         getEngine (register (register reg e) e2) (cipher_id (metadata e)) = Some e2
         \<and> getMetadata (register (register reg e) e2) (cipher_id (metadata e)) = Some (metadata e2))
    \<and> (i \<notin> set (map (\<lambda>x. cipher_id (metadata x)) es) \<longrightarrow>
         getEngine (register_all es :: 'm CipherRegistry) i = None
         \<and> getMetadata (register_all es :: 'm CipherRegistry) i = None)"
proof -
  have unknown: "i \<notin> set (map (\<lambda>x. cipher_id (metadata x)) es) \<Longrightarrow>
      getEngine (register_all es :: 'm CipherRegistry) i = None
      \<and> getMetadata (register_all es :: 'm CipherRegistry) i = None"
    using engines_register_all_aux [of i es "empty_registry :: 'm CipherRegistry"]
    by (simp add: getEngine_def getMetadata_def register_all_def empty_registry_def)
  show ?thesis
    using unknown by (simp add: getEngine_def getMetadata_def register_def)
qed

theorem registry_register_lookup_witness:
  "cipher_id (metadata tea_second) = cipher_id (metadata tea_first)
   \<and> ''xtea'' \<notin> set (map (\<lambda>x. cipher_id (metadata x)) [tea_first, tea_second])
   \<and> getEngine (register (register empty_registry tea_first) tea_second) ''tea'' = Some tea_second
   \<and> getMetadata (register (register empty_registry tea_first) tea_second) ''tea''
        = Some (metadata tea_second)
   \<and> getEngine (register_all [tea_first, tea_second]) ''xtea'' = None
   \<and> getMetadata (register_all [tea_first, tea_second]) ''xtea'' = None"
  using registry_register_lookup [of empty_registry tea_first tea_second "''xtea''"
      "[tea_first, tea_second]"]
  by (simp add: tea_first_def tea_second_def)


section \<open>Engine facade: validation\<close>

lemma structured_failure: "structured (failure msg)"
  by (simp add: structured_def failure_def)

lemma structured_succeed: "structured (succeed r md)"
  by (simp add: structured_def succeed_def)

lemma structured_catch_text_result: "structured (catch_error (text_result r md))"
  by (cases r) (simp_all add: catch_error_def text_result_def structured_failure structured_succeed)

lemma chacha_encrypt_with_Nil: "chacha_encrypt_with blk [] key nonce = []"
  by (simp add: chacha_encrypt_with_def)

lemma validateKey_length: "feistel_validateKey k \<longleftrightarrow> length k = 32"
  by (simp add: feistel_validateKey_def Hex_sigBytes_is_def)

text \<open>
  Claim C10: with an empty plaintext string, \<open>encrypt\<close> of the TEA and XTEA engines
  (any \<open>eng\<close>, whatever its block functions) and of the Salsa20 engine (whatever the
  block function \<open>blk\<close>) returns the failure result of the presence check, so no cipher
  runs; the ChaCha20 engine, given a valid key and nonce, returns a success result whose
  ciphertext is the empty string.
\<close>

theorem empty_plaintext:
  assumes "p_plaintext params = []"
  shows "feistel_encrypt eng random8 params = failure ''Plaintext and key are required''
    \<and> salsa_encrypt_with blk params = failure ''Plaintext and key are required''
    \<and> (chacha_validateKey (p_key params) \<and> given (p_nonce params)
          \<and> chacha_validateNonce (the (p_nonce params)) \<longrightarrow>
        chacha_encrypt_facade cblk params = succeed [] chacha_metadata)"
  using assms
  by (simp add: feistel_encrypt_def feistel_encrypt_try_def salsa_encrypt_with_def
      salsa_encrypt_try_def catch_error_def chacha_encrypt_facade_def TextEncoder_encode_def
      chacha_encrypt_with_Nil uint8ArrayToHex_def)

text \<open>
  Claim C5, amended. A \<open>decrypt\<close> call of the TEA or XTEA engine in CBC mode (chosen or
  by default) without an IV returns a failure result, and the failure is
  \<open>IV is required for CBC mode\<close> when the ciphertext is not empty and the key is valid.
  An \<open>encrypt\<close> call in CBC mode without an IV is not rejected: with a non-empty
  plaintext and a valid key it succeeds, chaining from the random 8-byte value drawn for
  the call.
\<close>

theorem cbc_without_iv:
  assumes "\<not> given (c_iv dparams)" and "default_to (c_mode dparams) ''CBC'' = ''CBC''"
    and "\<not> given (p_iv eparams)" and "default_to (p_mode eparams) ''CBC'' = ''CBC''"
  shows "\<not> success (feistel_decrypt eng dparams)
    \<and> (c_ciphertext dparams \<noteq> [] \<and> feistel_validateKey (c_key dparams) \<longrightarrow>
         feistel_decrypt eng dparams = failure ''IV is required for CBC mode'')
    \<and> (p_plaintext eparams \<noteq> [] \<and> feistel_validateKey (p_key eparams) \<longrightarrow>
         feistel_encrypt eng random8 eparams
           = succeed (encryptCBC eng (Utf8_parse (p_plaintext eparams)) (Hex_parse (p_key eparams))
                        random8)
               (feistel_metadata ''CBC'' (default_to (p_variant eparams) (defaultVariant eng))))"
proof -
  have dec: "feistel_decrypt_mode eng ''CBC'' v ct k None = Inl ''IV is required for CBC mode''"
    for v ct k
    by (simp add: feistel_decrypt_mode_def)
  have enc: "feistel_encrypt_mode eng ''CBC'' v pt k iv
      = Inr (succeed (encryptCBC eng pt k iv) (feistel_metadata ''CBC'' v))" for v pt k iv
    by (simp add: feistel_encrypt_mode_def)
  have k: "feistel_validateKey s \<Longrightarrow> s \<noteq> []" for s
    by (auto simp: validateKey_length)
  show ?thesis
    using assms k [of "c_key dparams"] k [of "p_key eparams"]
    by (auto simp: feistel_decrypt_def feistel_decrypt_try_def feistel_encrypt_def
        feistel_encrypt_try_def catch_error_def dec enc failure_def)
qed

text \<open>
  Claim C7, amended. An \<open>encrypt\<close> call whose key has a byte length outside the
  algorithm's set returns a failure result that does not depend on the block functions
  (the cipher is not run). The message is the invalid-key message for ChaCha20 always,
  for TEA and XTEA when plaintext and key are not empty, and for Salsa20 when moreover a
  nonce is given; the presence checks come first otherwise.
\<close>

theorem invalid_key_rejected:
  assumes "length (p_key fparams) \<noteq> 2 * 16"
    and "length (p_key sparams) \<noteq> 2 * 16" and "length (p_key sparams) \<noteq> 2 * 32"
    and "length (p_key cparams) \<noteq> 2 * 32"
  shows "\<not> success (feistel_encrypt eng random8 fparams)
    \<and> feistel_encrypt eng random8 fparams
        = feistel_encrypt (eng\<lparr>encryptBlock := enc', decryptBlock := dec'\<rparr>) random8' fparams
    \<and> (p_plaintext fparams \<noteq> [] \<and> p_key fparams \<noteq> [] \<longrightarrow>
         feistel_encrypt eng random8 fparams = failure (invalid_key_message eng))
    \<and> \<not> success (salsa_encrypt_with blk sparams)
    \<and> salsa_encrypt_with blk sparams = salsa_encrypt_with blk' sparams
    \<and> (p_plaintext sparams \<noteq> [] \<and> p_key sparams \<noteq> [] \<and> given (p_nonce sparams) \<longrightarrow>
         salsa_encrypt_with blk sparams = failure ''Invalid Salsa20 key. Must be 16 or 32 bytes'')
    \<and> chacha_encrypt_facade cblk cparams
        = failure ''Invalid key length. Expected 32 bytes (64 hex characters).''"
proof -
  have f: "\<not> feistel_validateKey (p_key fparams)"
    using assms(1) by (simp add: validateKey_length)
  have s: "\<not> salsa_validateKey (p_key sparams)"
    using assms(2,3) by (simp add: salsa_validateKey_def Hex_sigBytes_is_def)
  have c: "\<not> chacha_validateKey (p_key cparams)"
    using assms(4)
    by (auto simp: chacha_validateKey_def validateKeyLength_def isValidHex_def)
  show ?thesis
    using f s c
    by (simp add: feistel_encrypt_def feistel_encrypt_try_def salsa_encrypt_with_def
        salsa_encrypt_try_def catch_error_def chacha_encrypt_facade_def failure_def
        invalid_key_message_def)
qed

text \<open>
  Claim C8: \<open>encrypt\<close> and \<open>decrypt\<close> of the four engines return, on every input, a
  structured result: success with a result, or failure with an error message. Every
  \<open>throw\<close> of the source is a value \<open>Inl\<close> that the \<open>catch\<close> clause turns into a
  failure result, and the functions are total.
\<close>

theorem operations_structured:
  "structured (feistel_encrypt eng random8 eparams)
   \<and> structured (feistel_decrypt eng dparams)
   \<and> structured (salsa_encrypt_with blk eparams)
   \<and> structured (salsa_decrypt_with blk dparams)
   \<and> structured (chacha_encrypt_facade cblk eparams)
   \<and> structured (chacha_decrypt_facade cblk dparams)"
proof -
  have 1: "structured (feistel_encrypt eng random8 eparams)"
    by (simp add: feistel_encrypt_def feistel_encrypt_try_def feistel_encrypt_mode_def
        catch_error_def structured_failure structured_succeed)
  have 2: "structured (feistel_decrypt eng dparams)"
    by (simp add: feistel_decrypt_def feistel_decrypt_try_def feistel_decrypt_mode_def
        structured_catch_text_result)
      (simp add: catch_error_def structured_failure)
  have 3: "structured (salsa_encrypt_with blk eparams)"
    by (simp add: salsa_encrypt_with_def salsa_encrypt_try_def
        catch_error_def structured_failure structured_succeed)
  have 4: "structured (salsa_decrypt_with blk dparams)"
    by (simp add: salsa_decrypt_with_def salsa_decrypt_try_def structured_catch_text_result)
      (simp add: catch_error_def structured_failure)
  have 5: "structured (chacha_encrypt_facade cblk eparams)"
    by (simp add: chacha_encrypt_facade_def structured_failure structured_succeed)
  have 6: "structured (chacha_decrypt_facade cblk dparams)"
    by (simp add: chacha_decrypt_facade_def structured_failure structured_succeed)
  from 1 2 3 4 5 6 show ?thesis by simp
qed


lemma sample_chacha_valid:
  "chacha_validateKey sample_key32 \<and> chacha_validateNonce sample_nonce12
   \<and> sample_nonce12 \<noteq> []"
  by code_simp

text \<open>Claim C10 at a concrete input: an empty plaintext with a 32-byte key and a 12-byte nonce.\<close>

theorem empty_plaintext_witness:
  "p_plaintext sample_empty = []
   \<and> chacha_validateKey (p_key sample_empty) \<and> given (p_nonce sample_empty)
   \<and> chacha_validateNonce (the (p_nonce sample_empty))
   \<and> feistel_encrypt TeaEngine sample_random8 sample_empty
        = failure ''Plaintext and key are required''
   \<and> feistel_encrypt XteaEngine sample_random8 sample_empty
        = failure ''Plaintext and key are required''
   \<and> Salsa20Engine_encrypt sample_empty = failure ''Plaintext and key are required''
   \<and> ChaCha20Engine_encrypt sample_empty = succeed [] chacha_metadata"
  using empty_plaintext [where params = sample_empty and eng = TeaEngine
      and ?random8.0 = sample_random8 and blk = salsa20Block and cblk = chacha20Block]
    empty_plaintext [where params = sample_empty and eng = XteaEngine
      and ?random8.0 = sample_random8 and blk = salsa20Block and cblk = chacha20Block]
    sample_chacha_valid
  by (simp add: sample_empty_def Salsa20Engine_encrypt_def ChaCha20Engine_encrypt_def given_def)

text \<open>
  Claim C5 as stated fails for \<open>encrypt\<close>: the TEA engine in CBC mode without an IV
  returns a success result.
\<close>

theorem cbc_encrypt_without_iv_succeeds:
  "success (feistel_encrypt TeaEngine \<lparr>words = [0x01234567, 0x89abcdef], sigBytes = 8\<rparr>
      \<lparr>p_plaintext = ''ABCDEFGH'', p_key = ''000102030405060708090a0b0c0d0e0f'', p_iv = None,
       p_nonce = None, p_mode = Some ''CBC'', p_variant = None\<rparr>)"
  by (simp add: feistel_encrypt_def feistel_encrypt_try_def feistel_encrypt_mode_def
      catch_error_def succeed_def validateKey_length default_to_def)

text \<open>Claim C5, amended, at concrete parameters without an IV.\<close>

theorem cbc_without_iv_witness:
  "\<not> given (c_iv sample_decrypt_no_iv)
   \<and> default_to (c_mode sample_decrypt_no_iv) ''CBC'' = ''CBC''
   \<and> \<not> given (p_iv sample_encrypt_no_iv)
   \<and> default_to (p_mode sample_encrypt_no_iv) ''CBC'' = ''CBC''
   \<and> c_ciphertext sample_decrypt_no_iv \<noteq> [] \<and> feistel_validateKey (c_key sample_decrypt_no_iv)
   \<and> p_plaintext sample_encrypt_no_iv \<noteq> [] \<and> feistel_validateKey (p_key sample_encrypt_no_iv)
   \<and> feistel_decrypt TeaEngine sample_decrypt_no_iv = failure ''IV is required for CBC mode''
   \<and> feistel_encrypt TeaEngine sample_random8 sample_encrypt_no_iv
        = succeed (encryptCBC TeaEngine (Utf8_parse ''ABCDEFGH'') (Hex_parse sample_key16)
                     sample_random8)
            (feistel_metadata ''CBC'' ''tea'')"
  using cbc_without_iv [where dparams = sample_decrypt_no_iv and eparams = sample_encrypt_no_iv
      and eng = TeaEngine and ?random8.0 = sample_random8]
  by (simp add: sample_decrypt_no_iv_def sample_encrypt_no_iv_def given_def default_to_def
      validateKey_length sample_key16_def TeaEngine_def)

text \<open>
  Claim C7 as stated fails on the message: with an empty plaintext and a 15-byte key the
  TEA engine reports the presence check, not the key length.
\<close>

theorem short_key_empty_plaintext_message:
  "length ''000102030405060708090a0b0c0d0e'' \<noteq> 2 * 16
   \<and> error (feistel_encrypt TeaEngine \<lparr>words = [0x01234567, 0x89abcdef], sigBytes = 8\<rparr>
        \<lparr>p_plaintext = [], p_key = ''000102030405060708090a0b0c0d0e'', p_iv = None,
         p_nonce = None, p_mode = None, p_variant = None\<rparr>)
      = Some ''Plaintext and key are required''"
  by (simp add: feistel_encrypt_def feistel_encrypt_try_def catch_error_def failure_def)

text \<open>Claim C7, amended, at a 15-byte key with a non-empty plaintext and a nonce.\<close>

theorem invalid_key_rejected_witness:
  "length (p_key sample_short_key) \<noteq> 2 * 16 \<and> length (p_key sample_short_key) \<noteq> 2 * 32
   \<and> p_plaintext sample_short_key \<noteq> [] \<and> p_key sample_short_key \<noteq> []
   \<and> given (p_nonce sample_short_key)
   \<and> feistel_encrypt TeaEngine sample_random8 sample_short_key
        = failure ''Invalid TEA key. Must be exactly 16 bytes (128 bits)''
   \<and> feistel_encrypt XteaEngine sample_random8 sample_short_key
        = failure ''Invalid XTEA key. Must be exactly 16 bytes (128 bits)''
   \<and> Salsa20Engine_encrypt sample_short_key
        = failure ''Invalid Salsa20 key. Must be 16 or 32 bytes''
   \<and> ChaCha20Engine_encrypt sample_short_key
        = failure ''Invalid key length. Expected 32 bytes (64 hex characters).''"
  using invalid_key_rejected [where fparams = sample_short_key and sparams = sample_short_key
      and cparams = sample_short_key and eng = TeaEngine and ?random8.0 = sample_random8
      and blk = salsa20Block and cblk = chacha20Block]
    invalid_key_rejected [where fparams = sample_short_key and sparams = sample_short_key
      and cparams = sample_short_key and eng = XteaEngine and ?random8.0 = sample_random8
      and blk = salsa20Block and cblk = chacha20Block]
  by (simp add: sample_short_key_def sample_key15_def sample_nonce8_def given_def
      Salsa20Engine_encrypt_def ChaCha20Engine_encrypt_def invalid_key_message_def
      TeaEngine_def XteaEngine_def)

text \<open>Claim C8 at a call that succeeds and at a call that fails.\<close>

theorem operations_structured_witness:
  "success (feistel_encrypt TeaEngine sample_random8 sample_encrypt_no_iv)
   \<and> result (feistel_encrypt TeaEngine sample_random8 sample_encrypt_no_iv) \<noteq> None
   \<and> error (feistel_encrypt TeaEngine sample_random8 sample_encrypt_no_iv) = None
   \<and> \<not> success (feistel_decrypt TeaEngine sample_decrypt_no_iv)
   \<and> error (feistel_decrypt TeaEngine sample_decrypt_no_iv) \<noteq> None
   \<and> result (feistel_decrypt TeaEngine sample_decrypt_no_iv) = None"
proof -
  have s: "success (feistel_encrypt TeaEngine sample_random8 sample_encrypt_no_iv)"
    by (simp add: feistel_encrypt_def feistel_encrypt_try_def feistel_encrypt_mode_def
        catch_error_def succeed_def validateKey_length default_to_def sample_encrypt_no_iv_def
        sample_key16_def)
  have f: "\<not> success (feistel_decrypt TeaEngine sample_decrypt_no_iv)"
    by (simp add: feistel_decrypt_def feistel_decrypt_try_def feistel_decrypt_mode_def
        catch_error_def failure_def validateKey_length default_to_def sample_decrypt_no_iv_def
        sample_key16_def given_def)
  show ?thesis
    using s f operations_structured [where eng = TeaEngine and ?random8.0 = sample_random8
        and eparams = sample_encrypt_no_iv and dparams = sample_decrypt_no_iv]
    by (simp add: structured_def)
qed


section \<open>Words and bytes\<close>

lemma ff_mask: "(0xff :: word32) = mask 8"
  by (simp add: mask_eq_exp_minus_1)

lemma ucast_and_ff: "(ucast (w AND 0xff :: word32) :: byte) = ucast w"
  unfolding ff_mask
  by (rule bit_word_eqI) (auto simp: bit_simps)

lemma be_bytes32_be_word: "be_bytes32 (be_word a b c d) = [a, b, c, d]"
  unfolding be_bytes32_def be_word_def
  apply simp
  apply (intro conjI; rule bit_word_eqI; auto simp: bit_simps dest: bit_imp_le_length)
  done

lemma be_word_be_bytes32:
  "be_word (ucast (drop_bit 24 w)) (ucast (drop_bit 16 w)) (ucast (drop_bit 8 w)) (ucast w) = w"
  unfolding be_word_def
proof (rule bit_word_eqI)
  fix n assume "n < LENGTH(32)"
  then have n: "n < 32" by simp
  consider "n < 8" | "8 \<le> n" "n < 16" | "16 \<le> n" "n < 24" | "24 \<le> n" "n < 32"
    using n by linarith
  then show "bit (push_bit 24 (ucast (ucast (drop_bit 24 w) :: byte)) OR
          push_bit 16 (ucast (ucast (drop_bit 16 w) :: byte)) OR
          push_bit 8 (ucast (ucast (drop_bit 8 w) :: byte)) OR ucast (ucast w :: byte) :: word32) n
        = bit w n"
    by cases (auto simp: bit_simps)
qed

lemma of_char_byte: "(ucast (of_char c :: byte) :: word32) = of_char c"
proof -
  have lt: "(of_char c :: nat) < 2 ^ 8" by simp
  have "(ucast (of_nat (of_char c) :: byte) :: word32) = of_nat (take_bit 8 (of_char c :: nat))"
    by (simp only: unsigned_of_nat) simp
  also have "take_bit 8 (of_char c :: nat) = of_char c"
    using lt by (simp only: take_bit_nat_eq_self)
  finally show ?thesis by (simp add: of_nat_of_char)
qed

lemma of_char_and_ff: "(of_char c :: word32) AND 0xff = ucast (of_char c :: byte)"
  unfolding of_char_byte [symmetric] ff_mask
  by (rule bit_word_eqI) (auto simp: bit_simps dest: bit_imp_le_length)

lemma be_bytes32_xor: "be_bytes32 (x XOR y) = map2 (XOR) (be_bytes32 x) (be_bytes32 y)"
  by (simp add: be_bytes32_def drop_bit_xor unsigned_xor_eq)

lemma or_into_Cons: "or_into (w # ws) (Suc k) v = w # or_into ws k v"
  by (simp add: or_into_def)

lemma length_pack_be: "length (pack_be bs) = (length bs + 3) div 4"
  by (induction bs rule: pack_be.induct) simp_all

lemma pack_be_snoc:
  "pack_be (bs @ [x])
     = or_into (pack_be bs) (length bs div 4) (push_bit (24 - (length bs mod 4) * 8) (ucast x))"
proof (induction bs rule: pack_be.induct)
  case (1 a b c d r)
  have "length (a # b # c # d # r) div 4 = Suc (length r div 4)"
    and "length (a # b # c # d # r) mod 4 = length r mod 4"
    by simp_all
  with 1 show ?case
    by (simp only: append_Cons pack_be.simps or_into_Cons)
next
  case (2 a b c)
  show ?case by (simp add: or_into_def be_word_def ac_simps)
next
  case (3 a b)
  show ?case by (simp add: or_into_def be_word_def ac_simps)
next
  case (4 a)
  show ?case by (simp add: or_into_def be_word_def ac_simps)
next
  case 5
  show ?case by (simp add: or_into_def be_word_def)
qed

lemma Latin1_parse_fold:
  "n \<le> length s \<Longrightarrow> fold (Latin1_parse_step s) [0..<n] [] = pack_be (map of_char (take n s))"
proof (induction n)
  case 0
  show ?case by simp
next
  case (Suc n)
  then have n: "n < length s" by simp
  have "fold (Latin1_parse_step s) [0..<Suc n] []
          = Latin1_parse_step s n (pack_be (map of_char (take n s)))"
    using Suc by simp
  also have "\<dots> = pack_be (map of_char (take n s) @ [of_char (s ! n)])"
    using n by (simp add: Latin1_parse_step_def pack_be_snoc of_char_and_ff min_def)
  also have "map of_char (take n s) @ [of_char (s ! n)] = map of_char (take (Suc n) s)"
    using n by (simp add: take_Suc_conv_app_nth)
  finally show ?case .
qed

lemma words_Latin1_parse: "words (Latin1_parse s) = pack_be (map of_char s)"
  by (simp add: Latin1_parse_def WordArray_create_def Latin1_parse_fold)

lemma sigBytes_Latin1_parse: "sigBytes (Latin1_parse s) = length s"
  by (simp add: Latin1_parse_def WordArray_create_def)

lemma unpack_be_pack_be: "take (length bs) (unpack_be (pack_be bs)) = bs"
  by (induction bs rule: pack_be.induct) (simp_all add: unpack_be_def be_bytes32_be_word)

lemma length_unpack_be: "length (unpack_be ws) = 4 * length ws"
  by (induction ws) (simp_all add: unpack_be_def be_bytes32_def)

lemma pack_be_unpack_be: "pack_be (unpack_be ws) = ws"
  by (induction ws) (simp_all add: unpack_be_def be_bytes32_def be_word_be_bytes32)

lemma unpack_be_nth:
  "i < 4 * length ws \<Longrightarrow>
     unpack_be ws ! i = ucast (drop_bit (24 - (i mod 4) * 8) (ws ! (i div 4)))"
proof (induction ws arbitrary: i)
  case Nil
  then show ?case by simp
next
  case (Cons w ws)
  show ?case
  proof (cases "i < 4")
    case True
    then consider "i = 0" | "i = 1" | "i = 2" | "i = 3" by linarith
    then show ?thesis
      by cases (simp_all add: unpack_be_def be_bytes32_def)
  next
    case False
    then obtain j where j: "i = j + 4" by (metis add.commute le_Suc_ex not_less)
    with Cons.prems have "j < 4 * length ws" by simp
    moreover have "(j + 4) div 4 = Suc (j div 4)" by simp
    ultimately show ?thesis
      using j Cons.IH [of j] by (simp add: unpack_be_def be_bytes32_def nth_append)
  qed
qed

lemma wa_bytes_unpack:
  assumes "sigBytes wa \<le> 4 * length (words wa)"
  shows "wa_bytes wa = take (sigBytes wa) (unpack_be (words wa))"
proof (rule nth_equalityI)
  show "length (wa_bytes wa) = length (take (sigBytes wa) (unpack_be (words wa)))"
    using assms by (simp add: wa_bytes_def length_unpack_be)
next
  fix i assume "i < length (wa_bytes wa)"
  then have i: "i < sigBytes wa" by (simp add: wa_bytes_def)
  with assms have i4: "i < 4 * length (words wa)" by simp
  then have "i div 4 < length (words wa)" by simp
  then show "wa_bytes wa ! i = take (sigBytes wa) (unpack_be (words wa)) ! i"
    using i i4 by (simp add: wa_bytes_def wa_byte_def word_or_0_def unpack_be_nth ucast_and_ff)
qed

section \<open>Hexadecimal strings\<close>

lemma uint8ArrayToHex_pairs: "uint8ArrayToHex bs = concat (map hex_pair bs)"
  by (simp add: uint8ArrayToHex_def hex_pair_def [abs_def])

lemma nat_lt_16_cases:
  "(k :: nat) < 16 \<Longrightarrow> k = 0 \<or> k = 1 \<or> k = 2 \<or> k = 3 \<or> k = 4 \<or> k = 5 \<or> k = 6 \<or> k = 7
     \<or> k = 8 \<or> k = 9 \<or> k = 10 \<or> k = 11 \<or> k = 12 \<or> k = 13 \<or> k = 14 \<or> k = 15"
  by arith

lemma t1: "char_of (51::nat) = CHR ''3''"
  by (simp add: char_of_def bit_0)

lemma t1b: "char_of (51::nat) = CHR ''3''"
  by code_simp

lemma t2: "char_of (48 + (3::nat)) \<noteq> CHR ''x''"
  by (simp add: char_of_def bit_0)

lemma unat_ucast_byte: "unat (ucast (x :: byte) :: word32) = unat x"
proof -
  have "unat x < 2 ^ 32"
    using unsigned_less [of x, where 'a = nat] by simp
  then show ?thesis
    by (simp add: unsigned_ucast_eq take_bit_nat_eq_self)
qed

lemma unat_hi_nibble: "unat (ucast (drop_bit 4 (b :: byte)) :: word32) = unat b div 16"
  by (simp add: unat_ucast_byte unat_drop_bit_eq drop_bit_eq_div unat_div)

lemma f_mask: "(0x0f :: nat) = mask 4"
  by (simp add: mask_eq_exp_minus_1)

lemma unat_lo_nibble: "unat (ucast ((b :: byte) AND 0x0f) :: word32) = unat b mod 16"
proof -
  have "unat (b AND 0x0f) = unat b AND unat (0x0f :: byte)"
    by (rule unsigned_and_eq)
  also have "\<dots> = unat b AND mask 4"
    by (simp add: mask_eq_exp_minus_1)
  also have "\<dots> = unat b mod 16"
    by (simp add: take_bit_eq_mask [symmetric] take_bit_eq_mod)
  finally show ?thesis by (simp add: unat_ucast_byte)
qed

lemma hexDigitChar_hexc: "hexDigitChar n = hexc (unat n)"
  by (simp add: hexDigitChar_def hexc_def word_less_nat_alt)

lemma hexc_props:
  assumes "k < 16"
  shows "hexDigitValue (hexc k) = Some k
    \<and> \<not> isStrWhiteSpaceChar (hexc k)
    \<and> hexc k \<noteq> CHR ''-'' \<and> hexc k \<noteq> CHR ''+''
    \<and> hexc k \<noteq> CHR ''x'' \<and> hexc k \<noteq> CHR ''X''"
  using nat_lt_16_cases [OF assms]
  by (elim disjE) (simp_all add: hexc_def hexDigitValue_def isStrWhiteSpaceChar_def char_of_def bit_0)

lemma hex_pair_hexc: "hex_pair b = [hexc (unat b div 16), hexc (unat b mod 16)]"
  by (simp add: hex_pair_def hexDigitChar_hexc unat_hi_nibble unat_lo_nibble)

lemma unat_byte_div_16: "unat (b :: byte) div 16 < 16"
  using unsigned_less [of b, where 'a = nat] by simp

lemma parseInt16_hex_pair: "parseInt16 (hex_pair b) = Some (int (unat b))"
proof -
  let ?h = "unat b div 16" and ?l = "unat b mod 16"
  have h: "hexDigitValue (hexc ?h) = Some ?h" "\<not> isStrWhiteSpaceChar (hexc ?h)"
    "hexc ?h \<noteq> CHR ''-''" "hexc ?h \<noteq> CHR ''+''"
    using hexc_props [OF unat_byte_div_16 [of b]] by simp_all
  have l: "hexDigitValue (hexc ?l) = Some ?l" "hexc ?l \<noteq> CHR ''x''" "hexc ?l \<noteq> CHR ''X''"
    using hexc_props [of ?l] by simp_all
  show ?thesis
    using h l
    by (simp add: hex_pair_hexc parseInt16_def parseInt16_signed_def parseInt16_digits_def
        strip_sign_def strip_0x_def isHexDigit_def hex_value_def)
qed

lemma toInt32_hex_pair: "toInt32 (parseInt16 (hex_pair b)) = ucast b"
  by (simp add: parseInt16_hex_pair toInt32_def)

lemma toUint8_hex_pair: "toUint8 (parseInt16 (hex_pair b)) = b"
  by (simp add: parseInt16_hex_pair toUint8_def)

lemma length_hex_pair: "length (hex_pair b) = 2"
  by (simp add: hex_pair_def)

lemma length_uint8ArrayToHex: "length (uint8ArrayToHex bs) = 2 * length bs"
  by (induction bs) (simp_all add: uint8ArrayToHex_pairs length_hex_pair)

lemma drop_uint8ArrayToHex: "drop (2 * n) (uint8ArrayToHex bs) = uint8ArrayToHex (drop n bs)"
proof (induction bs arbitrary: n)
  case Nil
  show ?case by (simp add: uint8ArrayToHex_pairs)
next
  case (Cons b bs)
  show ?case
  proof (cases n)
    case 0
    then show ?thesis by simp
  next
    case (Suc m)
    with Cons [of m] show ?thesis
      by (simp add: uint8ArrayToHex_pairs length_hex_pair)
  qed
qed

lemma substr2_uint8ArrayToHex:
  "n < length bs \<Longrightarrow> substr2 (uint8ArrayToHex bs) (2 * n) = hex_pair (bs ! n)"
proof -
  assume n: "n < length bs"
  then obtain r where "drop n bs = bs ! n # r"
    by (metis Cons_nth_drop_Suc)
  then have "drop (2 * n) (uint8ArrayToHex bs) = hex_pair (bs ! n) @ uint8ArrayToHex r"
    by (simp add: drop_uint8ArrayToHex) (simp add: uint8ArrayToHex_pairs)
  then show ?thesis
    by (simp add: substr2_def length_hex_pair)
qed

lemma isValidHex_uint8ArrayToHex: "isValidHex (uint8ArrayToHex bs)"
proof -
  have "list_all isHexDigit (hex_pair b)" for b
    using hexc_props [OF unat_byte_div_16 [of b]] hexc_props [of "unat b mod 16"]
    by (simp add: hex_pair_hexc isHexDigit_def)
  then have "list_all isHexDigit (uint8ArrayToHex bs)"
    by (induction bs) (simp_all add: uint8ArrayToHex_pairs)
  then show ?thesis
    by (simp add: isValidHex_def length_uint8ArrayToHex)
qed

lemma hexToUint8Array_uint8ArrayToHex: "hexToUint8Array (uint8ArrayToHex bs) = bs"
proof (rule nth_equalityI)
  show "length (hexToUint8Array (uint8ArrayToHex bs)) = length bs"
    by (simp add: hexToUint8Array_def length_uint8ArrayToHex)
next
  fix i assume "i < length (hexToUint8Array (uint8ArrayToHex bs))"
  then have "i < length bs"
    by (simp add: hexToUint8Array_def length_uint8ArrayToHex)
  then show "hexToUint8Array (uint8ArrayToHex bs) ! i = bs ! i"
    by (simp add: hexToUint8Array_def length_uint8ArrayToHex substr2_uint8ArrayToHex
        toUint8_hex_pair)
qed

lemma Hex_parse_fold:
  "n \<le> length bs \<Longrightarrow>
     fold (Hex_parse_step (uint8ArrayToHex bs)) (map (\<lambda>j. 2 * j) [0..<n]) [] = pack_be (take n bs)"
proof (induction n)
  case 0
  show ?case by simp
next
  case (Suc n)
  then have n: "n < length bs" by simp
  have d: "2 * n div 8 = n div 4" by simp
  have m: "(2 * n mod 8) * 4 = (n mod 4) * 8" by presburger
  have "fold (Hex_parse_step (uint8ArrayToHex bs)) (map (\<lambda>j. 2 * j) [0..<Suc n]) []
          = Hex_parse_step (uint8ArrayToHex bs) (2 * n) (pack_be (take n bs))"
    using Suc by simp
  also have "\<dots> = pack_be (take n bs @ [bs ! n])"
    using n
    by (simp only: Hex_parse_step_def substr2_uint8ArrayToHex toInt32_hex_pair d m pack_be_snoc)
      (simp add: min_def)
  also have "take n bs @ [bs ! n] = take (Suc n) bs"
    using n by (simp add: take_Suc_conv_app_nth)
  finally show ?case .
qed

lemma Hex_parse_uint8ArrayToHex:
  "Hex_parse (uint8ArrayToHex bs) = \<lparr>words = pack_be bs, sigBytes = length bs\<rparr>"
  by (simp add: Hex_parse_def Hex_parse_words_def WordArray_create_def length_uint8ArrayToHex
      Hex_parse_fold)

lemma f_word_mask: "(0x0f :: word32) = mask 4"
  by (simp add: mask_eq_exp_minus_1)

lemma f_byte_mask: "(0x0f :: byte) = mask 4"
  by (simp add: mask_eq_exp_minus_1)

lemma Hex_stringify_bytes: "Hex_stringify wa = uint8ArrayToHex (wa_bytes wa)"
proof -
  have hi: "drop_bit 4 (wa_byte wa i) = ucast (drop_bit 4 (ucast (wa_byte wa i) :: byte))" for i
    unfolding wa_byte_def ff_mask
    by (rule bit_word_eqI) (auto simp: bit_simps dest: bit_imp_le_length)
  have lo: "wa_byte wa i AND 0x0f = ucast ((ucast (wa_byte wa i) :: byte) AND 0x0f)" for i
    unfolding wa_byte_def ff_mask f_word_mask f_byte_mask
    by (rule bit_word_eqI) (auto simp: bit_simps dest: bit_imp_le_length)
  show ?thesis
    unfolding Hex_stringify_def uint8ArrayToHex_def wa_bytes_def map_map o_def
    using hi lo by simp
qed

section \<open>Round trip: TEA\<close>

lemma block8_iff: "block8 b = (\<exists>x y. b = WordArray_create [x, y] 8)"
proof
  assume "block8 b"
  then obtain x y where "words b = [x, y]" and "sigBytes b = 8"
    by (auto simp: block8_def eval_nat_numeral length_Suc_conv)
  then have "b = WordArray_create [x, y] 8"
    by (cases b) (simp add: WordArray_create_def)
  then show "\<exists>x y. b = WordArray_create [x, y] 8" by blast
next
  assume "\<exists>x y. b = WordArray_create [x, y] 8"
  then show "block8 b" by (auto simp: block8_def WordArray_create_def)
qed

lemma block8_create: "block8 (WordArray_create [x, y] 8)"
  by (auto simp: block8_iff)

lemma block8_tea_encryptBlock: "block8 (tea_encryptBlock b key)"
  by (simp add: tea_encryptBlock_def Let_def block8_create split: prod.splits)

lemma xor_prefix_Nil: "xor_prefix [] ys = []"
  by (cases ys) simp_all

lemma block8_xorBlocks: "block8 b \<Longrightarrow> block8 (xorBlocks b p)"
proof -
  assume "block8 b"
  then obtain x y where b: "b = WordArray_create [x, y] 8" by (auto simp: block8_iff)
  have "\<exists>x' y'. xor_prefix [x, y] ws = [x', y']" for ws
    by (cases ws; cases "tl ws") (auto simp: xor_prefix_Nil)
  then show ?thesis
    by (auto simp: b xorBlocks_def WordArray_create_def block8_iff)
qed

lemma tea_dec_enc_block8: "block8 b \<Longrightarrow> tea_decryptBlock (tea_encryptBlock b key) key = b"
  by (auto simp: block8_iff tea_decryptBlock_encryptBlock WordArray_create_def word_or_0_def)

lemma xor_prefix_twice: "xor_prefix (xor_prefix a p) p = a"
  by (induction a p rule: xor_prefix.induct) (simp_all add: xor.assoc)

lemma xorBlocks_twice: "xorBlocks (xorBlocks b p) p = b"
  by (simp add: xorBlocks_def WordArray_create_def xor_prefix_twice)

lemma list_all_block8_split_words: "list_all block8 (split_words ws)"
  by (induction ws rule: split_words.induct) (simp_all add: block8_create)

lemma concat_split_words: "even (length ws) \<Longrightarrow> concat (map words (split_words ws)) = ws"
  by (induction ws rule: split_words.induct) (simp_all add: WordArray_create_def)

lemma split_words_concat: "list_all block8 bs \<Longrightarrow> split_words (concat (map words bs)) = bs"
  by (induction bs) (auto simp: block8_iff WordArray_create_def)

lemma sum_sigBytes_block8: "list_all block8 bs \<Longrightarrow> sum_list (map sigBytes bs) = 8 * length bs"
  by (induction bs) (auto simp: block8_iff WordArray_create_def)

lemma length_concat_block8: "list_all block8 bs \<Longrightarrow> length (concat (map words bs)) = 2 * length bs"
  by (induction bs) (auto simp: block8_iff WordArray_create_def)

lemma splitIntoBlocks_concatBlocks:
  "list_all block8 bs \<Longrightarrow> bs \<noteq> [] \<Longrightarrow> splitIntoBlocks (concatBlocks bs) = bs"
  by (simp add: splitIntoBlocks_def concatBlocks_def WordArray_create_def split_words_concat)

lemma Hex_parse_Hex_stringify:
  assumes "sigBytes wa = 4 * length (words wa)"
  shows "Hex_parse (Hex_stringify wa) = wa"
proof -
  have "wa_bytes wa = unpack_be (words wa)"
    using assms by (simp add: wa_bytes_unpack length_unpack_be)
  then show ?thesis
    using assms
    by (simp add: Hex_stringify_bytes Hex_parse_uint8ArrayToHex pack_be_unpack_be length_unpack_be)
qed

lemma Hex_parse_Hex_stringify_concatBlocks:
  "list_all block8 bs \<Longrightarrow> Hex_parse (Hex_stringify (concatBlocks bs)) = concatBlocks bs"
  by (rule Hex_parse_Hex_stringify)
    (simp add: concatBlocks_def WordArray_create_def sum_sigBytes_block8 length_concat_block8)

lemma Hex_stringify_concatBlocks_nonempty:
  "list_all block8 bs \<Longrightarrow> bs \<noteq> [] \<Longrightarrow> Hex_stringify (concatBlocks bs) \<noteq> []"
proof -
  assume a: "list_all block8 bs" "bs \<noteq> []"
  have "length (Hex_stringify (concatBlocks bs)) = 2 * (8 * length bs)"
    using a(1)
    by (simp add: Hex_stringify_bytes length_uint8ArrayToHex wa_bytes_def concatBlocks_def
        WordArray_create_def sum_sigBytes_block8)
  with a(2) show ?thesis by auto
qed

lemma tea_ecb_blocks:
  "list_all block8 bs \<Longrightarrow>
     map (process_block TeaEngine key False \<circ> process_block TeaEngine key True) bs = bs"
  by (induction bs) (simp_all add: process_block_def TeaEngine_def tea_dec_enc_block8)

lemma list_all_block8_ecb: "list_all block8 (map (process_block TeaEngine key True) bs)"
  by (induction bs) (simp_all add: process_block_def TeaEngine_def block8_tea_encryptBlock)

lemma list_all_block8_cbc: "list_all block8 (encryptCBC_loop TeaEngine key prev bs)"
  by (induction bs arbitrary: prev) (simp_all add: TeaEngine_def block8_tea_encryptBlock)

lemma tea_cbc_blocks:
  "list_all block8 bs \<Longrightarrow>
     decryptCBC_loop TeaEngine key prev (encryptCBC_loop TeaEngine key prev bs) = bs"
  by (induction bs arbitrary: prev)
    (simp_all add: TeaEngine_def tea_dec_enc_block8 block8_xorBlocks xorBlocks_twice)

section \<open>Text\<close>

lemma char_of_unat_byte: "char_of (unat (of_char c :: byte)) = c"
proof -
  have "unat (of_nat (of_char c) :: byte) = take_bit 8 (of_char c :: nat)"
    by (simp only: unsigned_of_nat) simp
  then have "unat (of_char c :: byte) = take_bit 8 (of_char c :: nat)"
    by (simp add: of_nat_of_char)
  then show ?thesis
    by (simp add: char_of_take_bit_eq)
qed

lemma chars_of_bytes: "map (\<lambda>b. char_of (unat b)) (map of_char s :: byte list) = s"
  by (induction s) (simp_all add: char_of_unat_byte)

lemma char_of_unat_ucast: "char_of (unat (ucast (w :: word32) :: byte)) = char_of (unat w)"
  by (simp add: unsigned_ucast_eq char_of_take_bit_eq)

lemma Latin1_stringify_bytes: "Latin1_stringify wa = map (\<lambda>b. char_of (unat b)) (wa_bytes wa)"
  by (simp add: Latin1_stringify_def wa_bytes_def char_of_unat_ucast)

lemma wa_bytes_Utf8_parse: "wa_bytes (Utf8_parse s) = map of_char s"
proof -
  have "sigBytes (Latin1_parse s) \<le> 4 * length (words (Latin1_parse s))"
    by (simp add: words_Latin1_parse sigBytes_Latin1_parse length_pack_be)
  from wa_bytes_unpack [OF this] show ?thesis
    using unpack_be_pack_be [of "map of_char s"]
    by (simp add: Utf8_parse_def words_Latin1_parse sigBytes_Latin1_parse)
qed

lemma Utf8_stringify_Utf8_parse:
  "utf8_wf (map of_char s) \<Longrightarrow> Utf8_stringify (Utf8_parse s) = Inr s"
proof -
  assume wf: "utf8_wf (map of_char s)"
  have "Latin1_stringify (Utf8_parse s) = s"
    by (simp only: Latin1_stringify_bytes wa_bytes_Utf8_parse chars_of_bytes)
  with wf show ?thesis
    by (simp add: Utf8_stringify_def utf8_checked_def)
qed

section \<open>Round trip: the TEA engine\<close>

lemma length_split_words: "length (split_words ws) = (length ws + 1) div 2"
  by (induction ws rule: split_words.induct) simp_all

lemma Utf8_parse_record:
  "Utf8_parse s = \<lparr>words = pack_be (map of_char s), sigBytes = length s\<rparr>"
  using words_Latin1_parse [of s] sigBytes_Latin1_parse [of s]
  by (simp add: Utf8_parse_def Latin1_parse_def WordArray_create_def)

lemma concatBlocks_splitIntoBlocks_text:
  assumes "s \<noteq> []" and "length s mod 8 = 0"
  shows "splitIntoBlocks (Utf8_parse s) = split_words (pack_be (map of_char s))"
    and "concatBlocks (split_words (pack_be (map of_char s))) = Utf8_parse s"
    and "split_words (pack_be (map of_char s)) \<noteq> []"
proof -
  let ?W = "pack_be (map of_char s :: byte list)"
  obtain n where n: "length s = 8 * n" using assms(2) by auto
  with assms(1) have n0: "0 < n" by (cases n) auto
  have lw: "length ?W = 2 * n"
    using n by (simp add: length_pack_be)
  have ls: "length (split_words ?W) = n"
    using lw by (simp add: length_split_words)
  show ne: "split_words ?W \<noteq> []"
    using ls n0 by auto
  show "splitIntoBlocks (Utf8_parse s) = split_words ?W"
    using ne by (simp add: splitIntoBlocks_def Utf8_parse_record)
  have "even (length ?W)" using lw by simp
  then show "concatBlocks (split_words ?W) = Utf8_parse s"
    using ls n
    by (simp add: concatBlocks_def WordArray_create_def concat_split_words Utf8_parse_record
        sum_sigBytes_block8 [OF list_all_block8_split_words])
qed

lemma tea_ecb_roundtrip:
  assumes "s \<noteq> []" and "length s mod 8 = 0"
  shows "decryptECB TeaEngine (Hex_parse (encryptECB TeaEngine (Utf8_parse s) key)) key = Utf8_parse s"
    and "encryptECB TeaEngine (Utf8_parse s) key \<noteq> []"
proof -
  let ?bs = "split_words (pack_be (map of_char s))"
  let ?cs = "map (process_block TeaEngine key True) ?bs"
  have bs: "list_all block8 ?bs" by (rule list_all_block8_split_words)
  have cs: "list_all block8 ?cs" by (rule list_all_block8_ecb)
  have ne: "?cs \<noteq> []"
    using concatBlocks_splitIntoBlocks_text(3) [OF assms] by simp
  have enc: "encryptECB TeaEngine (Utf8_parse s) key = Hex_stringify (concatBlocks ?cs)"
    by (simp add: encryptECB_def processBlocks_def concatBlocks_splitIntoBlocks_text(1) [OF assms])
  show "encryptECB TeaEngine (Utf8_parse s) key \<noteq> []"
    unfolding enc by (rule Hex_stringify_concatBlocks_nonempty [OF cs ne])
  show "decryptECB TeaEngine (Hex_parse (encryptECB TeaEngine (Utf8_parse s) key)) key = Utf8_parse s"
    unfolding enc
    by (simp add: decryptECB_def processBlocks_def Hex_parse_Hex_stringify_concatBlocks [OF cs]
        splitIntoBlocks_concatBlocks [OF cs ne] tea_ecb_blocks [OF bs]
        concatBlocks_splitIntoBlocks_text(2) [OF assms])
qed

lemma tea_cbc_roundtrip:
  assumes "s \<noteq> []" and "length s mod 8 = 0"
  shows "decryptCBC TeaEngine (Hex_parse (encryptCBC TeaEngine (Utf8_parse s) key iv)) key iv
           = Utf8_parse s"
    and "encryptCBC TeaEngine (Utf8_parse s) key iv \<noteq> []"
proof -
  let ?bs = "split_words (pack_be (map of_char s))"
  let ?cs = "encryptCBC_loop TeaEngine key iv ?bs"
  have bs: "list_all block8 ?bs" by (rule list_all_block8_split_words)
  have cs: "list_all block8 ?cs" by (rule list_all_block8_cbc)
  have ne: "?cs \<noteq> []"
    using concatBlocks_splitIntoBlocks_text(3) [OF assms] by (cases ?bs) simp_all
  have enc: "encryptCBC TeaEngine (Utf8_parse s) key iv = Hex_stringify (concatBlocks ?cs)"
    by (simp add: encryptCBC_def concatBlocks_splitIntoBlocks_text(1) [OF assms])
  show "encryptCBC TeaEngine (Utf8_parse s) key iv \<noteq> []"
    unfolding enc by (rule Hex_stringify_concatBlocks_nonempty [OF cs ne])
  show "decryptCBC TeaEngine (Hex_parse (encryptCBC TeaEngine (Utf8_parse s) key iv)) key iv
          = Utf8_parse s"
    unfolding enc
    by (simp add: decryptCBC_def Hex_parse_Hex_stringify_concatBlocks [OF cs]
        splitIntoBlocks_concatBlocks [OF cs ne] tea_cbc_blocks [OF bs]
        concatBlocks_splitIntoBlocks_text(2) [OF assms])
qed

lemma tea_engine_roundtrip:
  assumes "pt \<noteq> []" and "length pt mod 8 = 0" and "utf8_wf (map of_char pt)"
    and "feistel_validateKey k"
    and "m = Some ''ECB'' \<or> ((m = None \<or> m = Some ''CBC'') \<and> given iv)"
  shows "feistel_decrypt TeaEngine
           \<lparr>c_ciphertext = the (result (feistel_encrypt TeaEngine random8
                \<lparr>p_plaintext = pt, p_key = k, p_iv = iv, p_nonce = n, p_mode = m, p_variant = v\<rparr>)),
            c_key = k, c_iv = iv, c_nonce = n, c_mode = m, c_variant = v\<rparr>
         = succeed pt (feistel_metadata (default_to m ''CBC'') (default_to v ''tea''))"
proof -
  have k: "k \<noteq> []" using assms(4) by (auto simp: feistel_validateKey_def Hex_sigBytes_is_def)
  from assms(5) show ?thesis
  proof
    assume m: "m = Some ''ECB''"
    show ?thesis
      using assms(1,4) k tea_ecb_roundtrip [OF assms(1,2), of "Hex_parse k"]
        Utf8_stringify_Utf8_parse [OF assms(3)]
      by (simp add: m feistel_encrypt_def feistel_encrypt_try_def feistel_encrypt_mode_def
          feistel_decrypt_def feistel_decrypt_try_def feistel_decrypt_mode_def catch_error_def
          default_to_def succeed_def text_result_def TeaEngine_def [THEN arg_cong, of defaultVariant])
  next
    assume "(m = None \<or> m = Some ''CBC'') \<and> given iv"
    then have m: "default_to m ''CBC'' = ''CBC''" and iv: "given iv"
      by (auto simp: default_to_def)
    show ?thesis
      using assms(1,4) k iv tea_cbc_roundtrip [OF assms(1,2), of "Hex_parse k" "Hex_parse (the iv)"]
        Utf8_stringify_Utf8_parse [OF assms(3)]
      by (simp add: m feistel_encrypt_def feistel_encrypt_try_def feistel_encrypt_mode_def
          feistel_decrypt_def feistel_decrypt_try_def feistel_decrypt_mode_def catch_error_def
          succeed_def text_result_def TeaEngine_def [THEN arg_cong, of defaultVariant])
  qed
qed

section \<open>Keystream loops\<close>

lemma concat_uniform_nth:
  assumes "\<And>x. x \<in> set xs \<Longrightarrow> length (f x) = m" and "k < m * length xs"
  shows "concat (map f xs) ! k = f (xs ! (k div m)) ! (k mod m)"
  using assms
proof (induction xs arbitrary: k)
  case Nil
  then show ?case by simp
next
  case (Cons x xs)
  have lx: "length (f x) = m" using Cons.prems(1) by simp
  have m0: "0 < m" using Cons.prems(2) by (cases m) auto
  show ?case
  proof (cases "k < m")
    case True
    then show ?thesis by (simp add: nth_append lx)
  next
    case False
    then obtain j where j: "k = j + m" by (metis add.commute le_Suc_ex not_less)
    have jl: "j < m * length xs" using Cons.prems(2) j by simp
    have "concat (map f xs) ! j = f (xs ! (j div m)) ! (j mod m)"
      using Cons.IH [OF _ jl] Cons.prems(1) by simp
    moreover have "(j + m) div m = Suc (j div m)" using m0 by (simp add: div_add_self2)
    ultimately show ?thesis
      using j by (simp add: nth_append lx)
  qed
qed

lemma length_concat_uniform:
  "(\<And>x. x \<in> set xs \<Longrightarrow> length (f x) = m) \<Longrightarrow> length (concat (map f xs)) = m * length xs"
  by (induction xs) simp_all

lemma chacha_inner_fold:
  fixes ks :: "byte list"
  shows "length (fold (\<lambda>j out. out[i + j := pt ! (i + j) XOR ks ! j]) [0..<r] out) = length out
    \<and> (\<forall>k < length out.
          fold (\<lambda>j out. out[i + j := pt ! (i + j) XOR ks ! j]) [0..<r] out ! k
            = (if i \<le> k \<and> k < i + r then pt ! k XOR ks ! (k - i) else out ! k))"
proof (induction r)
  case 0
  show ?case by auto
next
  case (Suc r)
  let ?F = "fold (\<lambda>j out. out[i + j := pt ! (i + j) XOR ks ! j]) [0..<r] out"
  have F: "fold (\<lambda>j out. out[i + j := pt ! (i + j) XOR ks ! j]) [0..<Suc r] out
             = ?F[i + r := pt ! (i + r) XOR ks ! r]"
    by simp
  show ?case
  proof (intro conjI allI impI)
    show "length (fold (\<lambda>j out. out[i + j := pt ! (i + j) XOR ks ! j]) [0..<Suc r] out)
            = length out"
      using Suc unfolding F by simp
  next
    fix k assume k: "k < length out"
    then have kF: "k < length ?F" using Suc by simp
    have old: "?F ! k = (if i \<le> k \<and> k < i + r then pt ! k XOR ks ! (k - i) else out ! k)"
      using Suc k by simp
    show "fold (\<lambda>j out. out[i + j := pt ! (i + j) XOR ks ! j]) [0..<Suc r] out ! k
            = (if i \<le> k \<and> k < i + Suc r then pt ! k XOR ks ! (k - i) else out ! k)"
    proof (cases "k = i + r")
      case True
      then show ?thesis unfolding F using kF by simp
    next
      case False
      then have "(i \<le> k \<and> k < i + Suc r) = (i \<le> k \<and> k < i + r)" by auto
      with False show ?thesis unfolding F using kF old by simp
    qed
  qed
qed

declare chacha_encrypt_loop.simps [simp del]

lemma chacha_encrypt_loop_nth:
  assumes "i = 64 * c" and "length out = length pt"
  shows "length (chacha_encrypt_loop blk pt i c out) = length pt
    \<and> (\<forall>k < length pt.
          chacha_encrypt_loop blk pt i c out ! k
            = (if i \<le> k then pt ! k XOR blk (k div 64) ! (k mod 64) else out ! k))"
  using assms
proof (induction blk pt i c out rule: chacha_encrypt_loop.induct)
  case (1 blk pt i c out)
  show ?case
  proof (cases "i < length pt")
    case False
    then show ?thesis
      using "1.prems" by (subst chacha_encrypt_loop.simps, subst chacha_encrypt_loop.simps) simp
  next
    case True
    let ?r = "min 64 (length pt - i)"
    let ?out = "fold (\<lambda>j out. out[i + j := pt ! (i + j) XOR blk c ! j]) [0..<?r] out"
    have inner: "length ?out = length out"
      "\<And>k. k < length out \<Longrightarrow>
          ?out ! k = (if i \<le> k \<and> k < i + ?r then pt ! k XOR blk c ! (k - i) else out ! k)"
      using chacha_inner_fold [of i pt "blk c" ?r out] by simp_all
    have step: "chacha_encrypt_loop blk pt i c out = chacha_encrypt_loop blk pt (i + 64) (c + 1) ?out"
      using True by (subst chacha_encrypt_loop.simps) (simp add: Let_def)
    have IH: "length (chacha_encrypt_loop blk pt (i + 64) (c + 1) ?out) = length pt
      \<and> (\<forall>k < length pt.
            chacha_encrypt_loop blk pt (i + 64) (c + 1) ?out ! k
              = (if i + 64 \<le> k then pt ! k XOR blk (k div 64) ! (k mod 64) else ?out ! k))"
      using "1.IH" [OF True refl refl refl] "1.prems" inner(1) by simp
    show ?thesis
    proof (intro conjI allI impI)
      show "length (chacha_encrypt_loop blk pt i c out) = length pt"
        using IH step by simp
    next
      fix k assume k: "k < length pt"
      show "chacha_encrypt_loop blk pt i c out ! k
              = (if i \<le> k then pt ! k XOR blk (k div 64) ! (k mod 64) else out ! k)"
      proof (cases "i \<le> k \<and> k < i + 64")
        case True
        then obtain d where d: "k = 64 * c + d" "d < 64"
          using "1.prems"(1) by (metis add_less_cancel_left le_Suc_ex)
        then have "k div 64 = c" and "k mod 64 = k - i"
          using "1.prems"(1) by simp_all
        moreover have "k < i + ?r" using True k by auto
        ultimately show ?thesis
          using IH step k True "1.prems"(2) inner(2) [of k] by simp
      next
        case False
        then show ?thesis
          using IH step k "1.prems"(2) inner(2) [of k] by auto
      qed
    qed
  qed
qed

lemma chacha_encrypt_with_nth:
  "length (chacha_encrypt_with blk pt key nonce) = length pt
   \<and> (\<forall>k < length pt.
         chacha_encrypt_with blk pt key nonce ! k = pt ! k XOR blk key nonce (k div 64) ! (k mod 64))"
  using chacha_encrypt_loop_nth [of 0 0 "replicate (length pt) 0" pt "blk key nonce"]
  by (simp add: chacha_encrypt_with_def)

lemma chacha_encrypt_with_closed:
  assumes "\<And>c. length (blk key nonce c) = 64"
  shows "chacha_encrypt_with blk pt key nonce
     = map2 (XOR) pt (take (length pt) (concat (map (blk key nonce) [0..<(length pt + 63) div 64])))"
proof (rule nth_equalityI)
  let ?n = "(length pt + 63) div 64"
  have lc: "length (concat (map (blk key nonce) [0..<?n])) = 64 * ?n"
    using assms by (simp add: length_concat_uniform)
  have le: "length pt \<le> 64 * ?n" by simp
  show l: "length (chacha_encrypt_with blk pt key nonce)
       = length (map2 (XOR) pt (take (length pt) (concat (map (blk key nonce) [0..<?n]))))"
    using lc le by (simp add: chacha_encrypt_with_nth)
  fix k assume "k < length (chacha_encrypt_with blk pt key nonce)"
  then have k: "k < length pt" by (simp add: chacha_encrypt_with_nth)
  then have k64: "k < 64 * length [0..<?n]" using le by simp
  have kd: "k div 64 < ?n" using k by auto
  have "concat (map (blk key nonce) [0..<?n]) ! k = blk key nonce ([0..<?n] ! (k div 64)) ! (k mod 64)"
    using concat_uniform_nth [of "[0..<?n]" "blk key nonce" 64 k] assms k64 by simp
  then show "chacha_encrypt_with blk pt key nonce ! k
       = map2 (XOR) pt (take (length pt) (concat (map (blk key nonce) [0..<?n]))) ! k"
    using k kd lc le by (simp add: chacha_encrypt_with_nth)
qed

lemma length_fold_update:
  "(\<And>i xs. length (f i xs) = length xs) \<Longrightarrow> length (fold f is xs) = length xs"
  by (induction "is" arbitrary: xs) simp_all

lemma length_chacha20Block: "length (chacha20Block key nonce counter) = 64"
  by (simp add: chacha20Block_def chacha_block_of_state_def chacha_to_bytes_def length_fold_update)

lemma chacha_encrypt_involution:
  assumes "\<And>c. length (blk key nonce c) = 64"
  shows "chacha_encrypt_with blk (chacha_encrypt_with blk pt key nonce) key nonce = pt"
proof (rule nth_equalityI)
  show "length (chacha_encrypt_with blk (chacha_encrypt_with blk pt key nonce) key nonce) = length pt"
    by (simp add: chacha_encrypt_with_nth)
  fix k assume "k < length (chacha_encrypt_with blk (chacha_encrypt_with blk pt key nonce) key nonce)"
  then have k: "k < length pt" by (simp add: chacha_encrypt_with_nth)
  then show "chacha_encrypt_with blk (chacha_encrypt_with blk pt key nonce) key nonce ! k = pt ! k"
    by (simp add: chacha_encrypt_with_nth xor.assoc)
qed

section \<open>Text decoding\<close>

lemma utf8_decode_wf: "utf8_wf bs \<Longrightarrow> utf8_decode bs = bs"
proof (induction bs rule: utf8_wf.induct)
  case 1
  show ?case by simp
next
  case (2 b bs)
  show ?case
  proof (cases "b \<le> 0x7F")
    case True
    with 2 show ?thesis by simp
  next
    case n1: False
    show ?thesis
    proof (cases "0xC2 \<le> b \<and> b \<le> 0xDF")
      case True
      with n1 2 show ?thesis
        by (cases bs) simp_all
    next
      case n2: False
      show ?thesis
      proof (cases "0xE0 \<le> b \<and> b \<le> 0xEF")
        case True
        with n1 n2 2 show ?thesis
          by (cases bs; cases "tl bs") auto
      next
        case n3: False
        show ?thesis
        proof (cases "0xF0 \<le> b \<and> b \<le> 0xF4")
          case True
          with n1 n2 n3 2 show ?thesis
            by (cases bs; cases "tl bs"; cases "tl (tl bs)") auto
        next
          case False
          with n1 n2 n3 "2.prems" show ?thesis by auto
        qed
      qed
    qed
  qed
qed

lemma TextDecoder_decode_text:
  assumes "utf8_wf (map of_char s)" and "take 3 (map of_char s) \<noteq> [0xEF, 0xBB, 0xBF :: byte]"
  shows "TextDecoder_decode (TextEncoder_encode s) = s"
proof -
  have "strip_bom (map of_char s) = (map of_char s :: byte list)"
    using assms(2) by (simp add: strip_bom_def)
  then have "TextDecoder_decode (TextEncoder_encode s)
      = map (\<lambda>b. char_of (unat b)) (map of_char s :: byte list)"
    using utf8_decode_wf [OF assms(1)]
    by (simp only: TextDecoder_decode_def TextEncoder_encode_def)
  then show ?thesis
    by (simp only: chars_of_bytes)
qed

section \<open>Round trip: the ChaCha20 engine\<close>

lemma chacha_engine_roundtrip:
  assumes "chacha_validateKey k" and "n \<noteq> []" and "chacha_validateNonce n"
    and "utf8_wf (map of_char pt)" and "take 3 (map of_char pt) \<noteq> [0xEF, 0xBB, 0xBF :: byte]"
  shows "ChaCha20Engine_decrypt
           \<lparr>c_ciphertext = the (result (ChaCha20Engine_encrypt
                \<lparr>p_plaintext = pt, p_key = k, p_iv = iv, p_nonce = Some n, p_mode = m,
                 p_variant = v\<rparr>)),
            c_key = k, c_iv = iv, c_nonce = Some n, c_mode = m, c_variant = v\<rparr>
         = succeed pt chacha_metadata"
proof -
  let ?K = "hexToUint8Array k" and ?N = "hexToUint8Array n"
  let ?C = "chacha_encrypt_with chacha20Block (TextEncoder_encode pt) ?K ?N"
  have enc: "ChaCha20Engine_encrypt
      \<lparr>p_plaintext = pt, p_key = k, p_iv = iv, p_nonce = Some n, p_mode = m, p_variant = v\<rparr>
      = succeed (uint8ArrayToHex ?C) chacha_metadata"
    using assms(1,2,3) by (simp add: ChaCha20Engine_encrypt_def chacha_encrypt_facade_def given_def)
  have inv: "chacha_encrypt_with chacha20Block ?C ?K ?N = TextEncoder_encode pt"
    by (rule chacha_encrypt_involution) (rule length_chacha20Block)
  show ?thesis
    using assms(1,2,3) TextDecoder_decode_text [OF assms(4,5)]
    by (simp add: enc succeed_def ChaCha20Engine_decrypt_def chacha_decrypt_facade_def given_def
        isValidHex_uint8ArrayToHex hexToUint8Array_uint8ArrayToHex inv)
qed

section \<open>Salsa20: keystream bytes\<close>

lemma unpack_be_append: "unpack_be (a @ b) = unpack_be a @ unpack_be b"
  by (simp add: unpack_be_def)

lemma unpack_be_concat: "unpack_be (concat xs) = concat (map unpack_be xs)"
  by (induction xs) (simp_all add: unpack_be_append, simp add: unpack_be_def)

lemma unpack_be_map2_xor:
  "unpack_be (map2 (XOR) a b) = map2 (XOR) (unpack_be a) (unpack_be b)"
proof (induction a arbitrary: b)
  case Nil
  show ?case by (simp add: unpack_be_def)
next
  case (Cons x a)
  show ?case
  proof (cases b)
    case Nil
    then show ?thesis by (simp add: unpack_be_def)
  next
    case (Cons y b')
    have "unpack_be (map2 (XOR) (x # a) (y # b'))
            = be_bytes32 (x XOR y) @ unpack_be (map2 (XOR) a b')"
      by (simp add: unpack_be_def)
    also have "\<dots> = map2 (XOR) (be_bytes32 x) (be_bytes32 y)
                      @ map2 (XOR) (unpack_be a) (unpack_be b')"
      by (simp only: be_bytes32_xor Cons.IH)
    also have "\<dots> = map2 (XOR) (be_bytes32 x @ unpack_be a) (be_bytes32 y @ unpack_be b')"
      by (simp add: be_bytes32_def)
    finally show ?thesis
      using Cons by (simp add: unpack_be_def)
  qed
qed

lemma length_be_bytes32: "length (be_bytes32 w) = 4"
  by (simp add: be_bytes32_def)

lemma unpack_be_take: "unpack_be (take c ws) = take (4 * c) (unpack_be ws)"
proof (induction ws arbitrary: c)
  case Nil
  show ?case by (simp add: unpack_be_def)
next
  case (Cons w ws)
  show ?case
  proof (cases c)
    case 0
    then show ?thesis by (simp add: unpack_be_def)
  next
    case (Suc d)
    have "unpack_be (take c (w # ws)) = be_bytes32 w @ unpack_be (take d ws)"
      using Suc by (simp add: unpack_be_def)
    also have "\<dots> = be_bytes32 w @ take (4 * d) (unpack_be ws)"
      by (simp only: Cons.IH)
    also have "\<dots> = take (4 * c) (be_bytes32 w @ unpack_be ws)"
      using Suc length_be_bytes32 [of w] by (simp add: take_append)
    finally show ?thesis by (simp add: unpack_be_def)
  qed
qed

lemma xor_prefix_map2:
  "length b \<le> length a \<Longrightarrow>
     xor_prefix a b = map2 (XOR) (take (length b) a) b @ drop (length b) a"
  by (induction a b rule: xor_prefix.induct) simp_all

lemma length_xor_prefix: "length (xor_prefix a b) = length a"
  by (induction a b rule: xor_prefix.induct) simp_all

lemma map2_xor_twice:
  fixes p :: "byte list"
  shows "length p \<le> length k \<Longrightarrow> map2 (XOR) (map2 (XOR) p k) k = p"
proof (induction p arbitrary: k)
  case Nil
  show ?case by simp
next
  case (Cons x p)
  then obtain y k' where "k = y # k'" by (cases k) auto
  with Cons show ?case by (simp add: xor.assoc)
qed

lemma salsa_apply_bytes:
  assumes blk16: "\<And>i. length (blk key nonce i rounds) = 16"
    and enough: "(sigBytes data + 3) div 4 \<le> length (words data)"
  shows "wa_bytes (salsa_apply blk key nonce data rounds)
     = map2 (XOR) (wa_bytes data)
         (take (sigBytes data)
            (concat (map (\<lambda>i. unpack_be (blk key nonce i rounds))
                         [0..<(sigBytes data + 63) div 64])))"
proof -
  let ?L = "sigBytes data" and ?Wd = "words data"
  let ?c = "(?L + 3) div 4" and ?nb = "(?L + 63) div 64"
  let ?ALL = "concat (map (\<lambda>i. blk key nonce i rounds) [0..<?nb])"
  let ?Wk = "take ?c ?ALL"
  have lall: "length ?ALL = 16 * ?nb"
    using blk16 by (simp add: length_concat_uniform)
  have c_le: "?c \<le> 16 * ?nb" by arith
  have lwk: "length ?Wk = ?c" using lall c_le by simp
  have L4c: "?L \<le> 4 * ?c" by arith
  have X: "xor_prefix ?Wd ?Wk = map2 (XOR) (take ?c ?Wd) ?Wk @ drop ?c ?Wd"
    using xor_prefix_map2 [of ?Wk ?Wd] lwk enough by simp
  have app: "salsa_apply blk key nonce data rounds = \<lparr>words = xor_prefix ?Wd ?Wk, sigBytes = ?L\<rparr>"
    by (simp add: salsa_apply_def xorWithKeystream_def generateKeystream_with_def
        WordArray_create_def)
  have lfirst: "length (map2 (XOR) (unpack_be (take ?c ?Wd)) (unpack_be ?Wk)) = 4 * ?c"
    using lwk enough by (simp add: length_unpack_be)
  have "wa_bytes (salsa_apply blk key nonce data rounds) = take ?L (unpack_be (xor_prefix ?Wd ?Wk))"
    using wa_bytes_unpack [of "salsa_apply blk key nonce data rounds"] L4c enough
    by (simp add: app length_xor_prefix)
  also have "\<dots> = take ?L (map2 (XOR) (unpack_be (take ?c ?Wd)) (unpack_be ?Wk))"
    using lfirst L4c
    by (simp only: X unpack_be_append unpack_be_map2_xor) simp
  also have "\<dots> = map2 (XOR) (take ?L (unpack_be (take ?c ?Wd))) (take ?L (unpack_be ?Wk))"
    by (simp add: take_zip take_map)
  also have "take ?L (unpack_be (take ?c ?Wd)) = wa_bytes data"
    using wa_bytes_unpack [of data] L4c enough by (simp add: unpack_be_take min_def)
  also have "take ?L (unpack_be ?Wk)
      = take ?L (concat (map (\<lambda>i. unpack_be (blk key nonce i rounds)) [0..<?nb]))"
    using L4c by (simp add: unpack_be_take unpack_be_concat min_def o_def)
  finally show ?thesis .
qed

section \<open>Salsa20: blocks\<close>

lemma length_run_steps:
  "(\<And>f s. f \<in> set steps \<Longrightarrow> length (f s) = length s) \<Longrightarrow>
     length (run_steps steps st) = length st"
  by (induction steps arbitrary: st) simp_all

lemma length_repeat_n:
  fixes f :: "'a list \<Rightarrow> 'a list"
  assumes "\<And>s. length (f s) = length s"
  shows "length (repeat_n n f st) = length st"
  using assms by (induction n arbitrary: st) simp_all

lemma length_salsa_quarterRound: "length (salsa_quarterRound a b c d st) = length st"
  unfolding salsa_quarterRound_def
  by (rule length_run_steps) (auto simp: st_xor_rotl_sum_def)

lemma length_salsa_double_round: "length (salsa_double_round st) = length st"
  unfolding salsa_double_round_def
  by (rule length_run_steps) (auto simp: length_salsa_quarterRound)

lemma length_add_original_state: "length (add_original_state ws st) = length ws"
  by (simp add: add_original_state_def length_fold_update)

lemma length_salsa20Block: "length (salsa20Block key nonce counter rounds) = 16"
  by (simp add: salsa20Block_def salsa_block_of_state_def length_add_original_state
      length_repeat_n length_salsa_double_round salsa_init_state_def)

section \<open>Round trip: the Salsa20 engine\<close>

lemma length_wa_bytes: "length (wa_bytes wa) = sigBytes wa"
  by (simp add: wa_bytes_def)

lemma sigBytes_salsa_apply: "sigBytes (salsa_apply blk key nonce data rounds) = sigBytes data"
  by (simp add: salsa_apply_def xorWithKeystream_def WordArray_create_def)

lemma wa_bytes_Hex_parse: "wa_bytes (Hex_parse (uint8ArrayToHex bs)) = bs"
  using wa_bytes_unpack [of "\<lparr>words = pack_be bs, sigBytes = length bs\<rparr>"]
    unpack_be_pack_be [of bs]
  by (simp add: Hex_parse_uint8ArrayToHex length_pack_be)

lemma length_keystream_bytes:
  assumes "\<And>i. length (blk key nonce i rounds) = 16"
  shows "L \<le> length (concat (map (\<lambda>i. unpack_be (blk key nonce i rounds)) [0..<(L + 63) div 64]))"
proof -
  have "length (concat (map (\<lambda>i. unpack_be (blk key nonce i rounds)) [0..<(L + 63) div 64]))
          = 64 * length [0..<(L + 63) div 64]"
    by (rule length_concat_uniform) (simp add: length_unpack_be assms)
  then show ?thesis by simp
qed

lemma salsa_roundtrip_bytes:
  assumes blk16: "\<And>i. length (blk key nonce i rounds) = 16"
  shows "wa_bytes (salsa_apply blk key nonce
            (Hex_parse (Hex_stringify (salsa_apply blk key nonce (Utf8_parse s) rounds))) rounds)
          = map of_char s"
    and "sigBytes (salsa_apply blk key nonce
            (Hex_parse (Hex_stringify (salsa_apply blk key nonce (Utf8_parse s) rounds))) rounds)
          = length s"
    and "length (Hex_stringify (salsa_apply blk key nonce (Utf8_parse s) rounds)) = 2 * length s"
proof -
  let ?L = "length s"
  let ?KS = "take ?L (concat (map (\<lambda>i. unpack_be (blk key nonce i rounds)) [0..<(?L + 63) div 64]))"
  let ?X = "salsa_apply blk key nonce (Utf8_parse s) rounds"
  let ?D = "Hex_parse (Hex_stringify ?X)"
  have lks: "length ?KS = ?L"
    using length_keystream_bytes [where blk = blk and key = key and nonce = nonce
        and rounds = rounds and L = ?L] blk16 by simp
  have sp: "sigBytes (Utf8_parse s) = ?L" "length (words (Utf8_parse s)) = (?L + 3) div 4"
    by (simp_all add: Utf8_parse_record length_pack_be)
  have bx: "wa_bytes ?X = map2 (XOR) (map of_char s) ?KS"
    using salsa_apply_bytes [where blk = blk and key = key and nonce = nonce
        and rounds = rounds and data = "Utf8_parse s"] blk16 sp
    by (simp add: wa_bytes_Utf8_parse)
  have lbx: "length (wa_bytes ?X) = ?L"
    by (simp add: length_wa_bytes sigBytes_salsa_apply sp)
  have D: "?D = \<lparr>words = pack_be (wa_bytes ?X), sigBytes = ?L\<rparr>"
    by (simp add: Hex_stringify_bytes Hex_parse_uint8ArrayToHex lbx)
  have bd: "wa_bytes ?D = wa_bytes ?X"
    by (simp add: Hex_stringify_bytes wa_bytes_Hex_parse)
  have enough: "(sigBytes ?D + 3) div 4 \<le> length (words ?D)"
    by (simp add: D length_pack_be lbx)
  have "wa_bytes (salsa_apply blk key nonce ?D rounds) = map2 (XOR) (wa_bytes ?D) ?KS"
    using salsa_apply_bytes [where blk = blk and key = key and nonce = nonce
        and rounds = rounds and data = ?D] blk16 enough
    by (simp add: D)
  also have "\<dots> = map2 (XOR) (map2 (XOR) (map of_char s) ?KS) ?KS"
    by (simp only: bd bx)
  also have "\<dots> = map of_char s"
    by (rule map2_xor_twice) (simp only: lks length_map)
  finally show "wa_bytes (salsa_apply blk key nonce ?D rounds) = map of_char s" .
  show "sigBytes (salsa_apply blk key nonce ?D rounds) = ?L"
    by (simp add: sigBytes_salsa_apply D)
  show "length (Hex_stringify ?X) = 2 * ?L"
    by (simp add: Hex_stringify_bytes length_uint8ArrayToHex lbx)
qed

lemma salsa_engine_roundtrip:
  assumes "pt \<noteq> []" and "utf8_wf (map of_char pt)"
    and "salsa_validateKey k" and "salsa_validateNonce n"
  shows "Salsa20Engine_decrypt
           \<lparr>c_ciphertext = the (result (Salsa20Engine_encrypt
                \<lparr>p_plaintext = pt, p_key = k, p_iv = iv, p_nonce = Some n, p_mode = m,
                 p_variant = v\<rparr>)),
            c_key = k, c_iv = iv, c_nonce = Some n, c_mode = m, c_variant = v\<rparr>
         = succeed pt (salsa_metadata (Hex_parse k) (default_to v ''salsa20/20''))"
proof -
  let ?r = "getRoundsFromVariant (default_to v ''salsa20/20'')"
  let ?X = "salsa_apply salsa20Block (Hex_parse k) (Hex_parse n) (Utf8_parse pt) ?r"
  let ?Y = "salsa_apply salsa20Block (Hex_parse k) (Hex_parse n) (Hex_parse (Hex_stringify ?X)) ?r"
  have k: "k \<noteq> []" and n: "n \<noteq> []"
    using assms(3,4) by (auto simp: salsa_validateKey_def salsa_validateNonce_def Hex_sigBytes_is_def)
  have rt: "wa_bytes ?Y = map of_char pt" "length (Hex_stringify ?X) = 2 * length pt"
    using salsa_roundtrip_bytes [where blk = salsa20Block and key = "Hex_parse k"
        and nonce = "Hex_parse n" and rounds = ?r and s = pt]
    by (simp_all add: length_salsa20Block)
  have ne: "Hex_stringify ?X \<noteq> []"
    using rt(2) assms(1) by auto
  have "Latin1_stringify ?Y = pt"
    by (simp only: Latin1_stringify_bytes rt(1) chars_of_bytes)
  then have dec: "Utf8_stringify ?Y = Inr pt"
    using assms(2) by (simp add: Utf8_stringify_def utf8_checked_def)
  have enc: "Salsa20Engine_encrypt
      \<lparr>p_plaintext = pt, p_key = k, p_iv = iv, p_nonce = Some n, p_mode = m, p_variant = v\<rparr>
      = succeed (Hex_stringify ?X) (salsa_metadata (Hex_parse k) (default_to v ''salsa20/20''))"
    using assms(1,3,4) k n
    by (simp add: Salsa20Engine_encrypt_def salsa_encrypt_with_def salsa_encrypt_try_def
        catch_error_def given_def)
  show ?thesis
    using assms(3,4) k n ne dec
    by (simp add: enc succeed_def Salsa20Engine_decrypt_def salsa_decrypt_with_def
        salsa_decrypt_try_def catch_error_def given_def text_result_def)
qed

section \<open>Finalization of the ARX blocks\<close>

lemma add_original_state_fold:
  "length (fold (\<lambda>i ws. ws[i := ws ! i + st ! i]) [0..<n] ws) = length ws
   \<and> (\<forall>k < length ws.
         fold (\<lambda>i ws. ws[i := ws ! i + st ! i]) [0..<n] ws ! k
           = (if k < n then ws ! k + st ! k else ws ! k))"
proof (induction n)
  case 0
  show ?case by simp
next
  case (Suc n)
  then show ?case
    by (auto simp: nth_list_update less_Suc_eq)
qed

lemma add_original_state_map2:
  assumes "length ws = 16" and "length st = 16"
  shows "add_original_state ws st = map2 (+) ws st"
proof (rule nth_equalityI)
  show "length (add_original_state ws st) = length (map2 (+) ws st)"
    using assms add_original_state_fold [of st 16 ws] by (simp add: add_original_state_def)
next
  fix k assume "k < length (add_original_state ws st)"
  then have k: "k < 16"
    using assms add_original_state_fold [of st 16 ws] by (simp add: add_original_state_def)
  then show "add_original_state ws st ! k = map2 (+) ws st ! k"
    using assms add_original_state_fold [of st 16 ws] by (simp add: add_original_state_def)
qed

lemma le_bytes32_nth:
  "k < 4 \<Longrightarrow> le_bytes32 w ! k = ucast (drop_bit (8 * k) w)"
proof -
  assume "k < 4"
  then consider "k = 0" | "k = 1" | "k = 2" | "k = 3" by linarith
  then show ?thesis by cases (simp_all add: le_bytes32_def)
qed

lemma chacha_to_bytes_step:
  fixes out :: "byte list"
  assumes "length out = 64" and "i < 16" and "k < 64"
  shows "out[i * 4 := ucast (w AND 0xff),
             i * 4 + 1 := ucast (drop_bit 8 w AND 0xff),
             i * 4 + 2 := ucast (drop_bit 16 w AND 0xff),
             i * 4 + 3 := ucast (drop_bit 24 (w :: word32) AND 0xff)] ! k
         = (if k div 4 = i then le_bytes32 w ! (k mod 4) else out ! k)"
proof (cases "k div 4 = i")
  case True
  then obtain j where j: "k = i * 4 + j" "j < 4"
    by (metis mod_less_divisor mult.commute mult_div_mod_eq zero_less_numeral)
  then have m: "k mod 4 = j" by simp
  have rhs: "le_bytes32 w ! (k mod 4) = ucast (drop_bit (8 * j) w)"
    unfolding m by (rule le_bytes32_nth [OF j(2)])
  consider "j = 0" | "j = 1" | "j = 2" | "j = 3" using j(2) by linarith
  then have "out[i * 4 := ucast (w AND 0xff),
             i * 4 + 1 := ucast (drop_bit 8 w AND 0xff),
             i * 4 + 2 := ucast (drop_bit 16 w AND 0xff),
             i * 4 + 3 := ucast (drop_bit 24 w AND 0xff)] ! k = ucast (drop_bit (8 * j) w)"
    using j(1) assms by cases (simp_all add: ucast_and_ff)
  with True rhs show ?thesis by simp
next
  case False
  then have "k \<noteq> i * 4" "k \<noteq> i * 4 + 1" "k \<noteq> i * 4 + 2" "k \<noteq> i * 4 + 3"
    by auto
  with False show ?thesis by simp
qed

lemma chacha_to_bytes_fold:
  assumes "n \<le> 16"
  shows "length (fold (\<lambda>i out.
             out[i * 4 := ucast (ws ! i AND 0xff),
                 i * 4 + 1 := ucast (drop_bit 8 (ws ! i) AND 0xff),
                 i * 4 + 2 := ucast (drop_bit 16 (ws ! i) AND 0xff),
                 i * 4 + 3 := ucast (drop_bit 24 (ws ! i) AND 0xff)])
          [0..<n] (replicate 64 (0 :: byte))) = 64
   \<and> (\<forall>k < 64.
         fold (\<lambda>i out.
             out[i * 4 := ucast (ws ! i AND 0xff),
                 i * 4 + 1 := ucast (drop_bit 8 (ws ! i) AND 0xff),
                 i * 4 + 2 := ucast (drop_bit 16 (ws ! i) AND 0xff),
                 i * 4 + 3 := ucast (drop_bit 24 (ws ! i) AND 0xff)])
          [0..<n] (replicate 64 (0 :: byte)) ! k
           = (if k div 4 < n then le_bytes32 ((ws :: word32 list) ! (k div 4)) ! (k mod 4) else 0))"
  using assms
proof (induction n)
  case 0
  show ?case by simp
next
  case (Suc n)
  let ?step = "\<lambda>i out.
             out[i * 4 := ucast (ws ! i AND 0xff),
                 i * 4 + 1 := ucast (drop_bit 8 (ws ! i) AND 0xff),
                 i * 4 + 2 := ucast (drop_bit 16 (ws ! i) AND 0xff),
                 i * 4 + 3 := (ucast (drop_bit 24 (ws ! i) AND 0xff) :: byte)]"
  let ?F = "fold ?step [0..<n] (replicate 64 0)"
  have IH: "length ?F = 64"
    "\<And>k. k < 64 \<Longrightarrow> ?F ! k = (if k div 4 < n then le_bytes32 (ws ! (k div 4)) ! (k mod 4) else 0)"
    using Suc by simp_all
  have n: "n < 16" using Suc.prems by simp
  have F: "fold ?step [0..<Suc n] (replicate 64 0) = ?step n ?F" by simp
  show ?case
  proof (intro conjI allI impI)
    show "length (fold ?step [0..<Suc n] (replicate 64 0)) = 64"
      unfolding F using IH(1) by simp
  next
    fix k :: nat assume k: "k < 64"
    have "?step n ?F ! k = (if k div 4 = n then le_bytes32 (ws ! n) ! (k mod 4) else ?F ! k)"
      by (rule chacha_to_bytes_step [OF IH(1) n k])
    then show "fold ?step [0..<Suc n] (replicate 64 0) ! k
        = (if k div 4 < Suc n then le_bytes32 (ws ! (k div 4)) ! (k mod 4) else 0)"
      unfolding F using IH(2) [OF k] by (auto simp: less_Suc_eq)
  qed
qed

lemma length_le_bytes32: "length (le_bytes32 w) = 4"
  by (simp add: le_bytes32_def)

lemma chacha_to_bytes_le:
  assumes "length ws = 16"
  shows "chacha_to_bytes ws = concat (map le_bytes32 ws)"
proof (rule nth_equalityI)
  have lc: "length (concat (map le_bytes32 ws)) = 4 * length ws"
    by (rule length_concat_uniform) (rule length_le_bytes32)
  show "length (chacha_to_bytes ws) = length (concat (map le_bytes32 ws))"
    using chacha_to_bytes_fold [of 16 ws] assms lc by (simp add: chacha_to_bytes_def)
  fix k assume "k < length (chacha_to_bytes ws)"
  then have k: "k < 64"
    using chacha_to_bytes_fold [of 16 ws] by (simp add: chacha_to_bytes_def)
  then have kd: "k div 4 < 16" by simp
  have "concat (map le_bytes32 ws) ! k = le_bytes32 (ws ! (k div 4)) ! (k mod 4)"
    using concat_uniform_nth [of ws le_bytes32 4 k] assms k by (simp add: length_le_bytes32)
  then show "chacha_to_bytes ws ! k = concat (map le_bytes32 ws) ! k"
    using chacha_to_bytes_fold [of 16 ws] k kd by (simp add: chacha_to_bytes_def)
qed

section \<open>Lengths of the ChaCha20 state\<close>

lemma length_chacha_quarterRound: "length (chacha_quarterRound a b c d st) = length st"
  unfolding chacha_quarterRound_def
  by (rule length_run_steps) (auto simp: st_add_def st_xor_def st_rotl_def)

lemma length_chacha_double_round: "length (chacha_double_round st) = length st"
  unfolding chacha_double_round_def
  by (rule length_run_steps) (auto simp: length_chacha_quarterRound)

lemma length_chacha_init_state: "length (chacha_init_state key nonce counter) = 16"
  by (simp add: chacha_init_state_def length_fold_update)

lemma chacha20Block_closed:
  "chacha20Block key nonce counter
     = concat (map le_bytes32
         (map2 (+) (repeat_n 10 chacha_double_round (chacha_init_state key nonce counter))
                   (chacha_init_state key nonce counter)))"
proof -
  let ?st = "chacha_init_state key nonce counter"
  let ?ws = "repeat_n 10 chacha_double_round ?st"
  have lw: "length ?ws = 16"
    by (simp add: length_repeat_n length_chacha_double_round length_chacha_init_state)
  have "add_original_state ?ws ?st = map2 (+) ?ws ?st"
    by (rule add_original_state_map2 [OF lw length_chacha_init_state])
  moreover have "length (add_original_state ?ws ?st) = 16"
    using lw by (simp add: length_add_original_state)
  ultimately show ?thesis
    using chacha_to_bytes_le [of "add_original_state ?ws ?st"]
    by (simp add: chacha20Block_def chacha_block_of_state_def)
qed

section \<open>Salsa20: the keystream block\<close>

lemma length_salsa_init_state: "length (salsa_init_state key nonce counter) = 16"
  by (simp add: salsa_init_state_def)

lemma salsa20Block_closed:
  "salsa20Block key nonce counter rounds
     = map2 (+) (repeat_n ((rounds + 1) div 2) salsa_double_round (salsa_init_state key nonce counter))
                (salsa_init_state key nonce counter)"
proof -
  let ?st = "salsa_init_state key nonce counter"
  let ?ws = "repeat_n ((rounds + 1) div 2) salsa_double_round ?st"
  have lw: "length ?ws = 16"
    by (simp add: length_repeat_n length_salsa_double_round length_salsa_init_state)
  show ?thesis
    using add_original_state_map2 [OF lw length_salsa_init_state]
    by (simp add: salsa20Block_def salsa_block_of_state_def)
qed

lemma salsa_keystream_block_be:
  assumes "length (blk key nonce 0 rounds) = 16"
  shows "wa_bytes (generateKeystream_with blk key nonce 64 rounds)
           = concat (map be_bytes32 (blk key nonce 0 rounds))"
proof -
  have g: "generateKeystream_with blk key nonce 64 rounds
      = \<lparr>words = blk key nonce 0 rounds, sigBytes = 64\<rparr>"
    using assms by (simp add: generateKeystream_with_def WordArray_create_def)
  show ?thesis
    using wa_bytes_unpack [of "\<lparr>words = blk key nonce 0 rounds, sigBytes = 64\<rparr>"] assms
    by (simp add: g length_unpack_be) (simp add: unpack_be_def)
qed

section \<open>A Salsa20 block, evaluated\<close>

lemma repeat_n_4: "repeat_n 4 f x = f (f (f (f x)))"
  by (simp add: eval_nat_numeral)

lemma salsa_sample_init:
  "salsa_init_state
     \<lparr>words = [0x00010203, 0x04050607, 0x08090a0b, 0x0c0d0e0f], sigBytes = 16\<rparr>
     \<lparr>words = [0x00010203, 0x04050607], sigBytes = 8\<rparr> 0
   = [1634760805, 66051, 67438087, 134810123, 202182159, 857760878, 66051, 67438087,
      0, 0, 2036477234, 66051, 67438087, 134810123, 202182159, 1797285236]"
  by code_simp

lemma salsa_sample_round_1:
  "salsa_double_round
     [1634760805, 66051, 67438087, 134810123, 202182159, 857760878, 66051, 67438087,
      0, 0, 2036477234, 66051, 67438087, 134810123, 202182159, 1797285236]
   = [865123487, 4151535079, 3385171828, 3088173465, 3551516097, 780435818,
      4091105742, 2081019681, 867409001, 2684028112, 4207002926, 2928991704,
      2544823880, 3061812576, 1928306038, 1963266624]"
  by code_simp

lemma salsa_sample_round_2:
  "salsa_double_round
     [865123487, 4151535079, 3385171828, 3088173465, 3551516097, 780435818,
      4091105742, 2081019681, 867409001, 2684028112, 4207002926, 2928991704,
      2544823880, 3061812576, 1928306038, 1963266624]
   = [1502907282, 2876550794, 1119578384, 1981454414, 1386454928, 2177861065,
      3986939492, 3757906021, 164224665, 1047894649, 3024898671, 2819683664,
      2735039591, 1599048014, 2731688779, 3499121088]"
  by code_simp

lemma salsa_sample_round_3:
  "salsa_double_round
     [1502907282, 2876550794, 1119578384, 1981454414, 1386454928, 2177861065,
      3986939492, 3757906021, 164224665, 1047894649, 3024898671, 2819683664,
      2735039591, 1599048014, 2731688779, 3499121088]
   = [399245739, 3591584398, 701741864, 4161523598, 431163879, 1791548412,
      3059900594, 2649087625, 2841704326, 3819323104, 3766976722, 3206219462,
      2707383770, 2100036413, 937740618, 3025172192]"
  by code_simp

lemma salsa_sample_round_4:
  "salsa_double_round
     [399245739, 3591584398, 701741864, 4161523598, 431163879, 1791548412,
      3059900594, 2649087625, 2841704326, 3819323104, 3766976722, 3206219462,
      2707383770, 2100036413, 937740618, 3025172192]
   = [688054401, 208741392, 2484713999, 376891558, 3055136019, 1405951684,
      3159581546, 1961782625, 3733839164, 2220792068, 509952929, 932344419,
      4017614772, 2477172688, 2447678306, 2478945559]"
  by code_simp

lemma salsa_sample_add:
  "add_original_state
     [688054401, 208741392, 2484713999, 376891558, 3055136019, 1405951684,
      3159581546, 1961782625, 3733839164, 2220792068, 509952929, 932344419,
      4017614772, 2477172688, 2447678306, 2478945559]
     [1634760805, 66051, 67438087, 134810123, 202182159, 857760878, 66051, 67438087,
      0, 0, 2036477234, 66051, 67438087, 134810123, 202182159, 1797285236]
   = [2322815206, 208807443, 2552152086, 511701681, 3257318178, 2263712562,
      3159647597, 2029220712, 3733839164, 2220792068, 2546430163, 932410470,
      4085052859, 2611982811, 2649860465, 4276230795]"
  by code_simp

lemma salsa_sample_block:
  "salsa20Block
     \<lparr>words = [0x00010203, 0x04050607, 0x08090a0b, 0x0c0d0e0f], sigBytes = 16\<rparr>
     \<lparr>words = [0x00010203, 0x04050607], sigBytes = 8\<rparr> 0 8
   = [2322815206, 208807443, 2552152086, 511701681, 3257318178, 2263712562,
      3159647597, 2029220712, 3733839164, 2220792068, 2546430163, 932410470,
      4085052859, 2611982811, 2649860465, 4276230795]"
proof -
  have r: "(8 + 1) div 2 = (4 :: nat)" by simp
  show ?thesis
    unfolding salsa20Block_def salsa_block_of_state_def r repeat_n_4
    by (simp only: salsa_sample_init salsa_sample_round_1 salsa_sample_round_2
        salsa_sample_round_3 salsa_sample_round_4 salsa_sample_add)
qed

section \<open>The keystream block and the keystream loop\<close>

text \<open>
  Claim C4, amended. Both block functions end by adding the original state to the state
  after the rounds, word by word modulo \<open>2^32\<close> (the addition of \<open>word32\<close>), after 10
  double rounds for ChaCha20 and \<open>\<lceil>rounds / 2\<rceil>\<close> double rounds for Salsa20. Only
  \<open>chacha20Block\<close> serialises: its result is the 64 bytes of the 16 sums, each word
  least significant byte first. \<open>salsa20Block\<close> returns the 16 sums as words, and
  \<open>generateKeystream\<close> hands them to a \<open>WordArray\<close>, so the 64 bytes of a Salsa20
  keystream block are those of the 16 words most significant byte first.
\<close>

theorem arx_finalization:
  "chacha20Block key nonce counter
     = concat (map le_bytes32
         (map2 (+) (repeat_n 10 chacha_double_round (chacha_init_state key nonce counter))
                   (chacha_init_state key nonce counter)))
   \<and> length (chacha20Block key nonce counter) = 64
   \<and> salsa20Block skey snonce counter rounds
     = map2 (+) (repeat_n ((rounds + 1) div 2) salsa_double_round
                    (salsa_init_state skey snonce counter))
                (salsa_init_state skey snonce counter)
   \<and> length (salsa20Block skey snonce counter rounds) = 16
   \<and> wa_bytes (generateKeystream skey snonce 64 rounds)
     = concat (map be_bytes32 (salsa20Block skey snonce 0 rounds))"
proof (intro conjI)
  show "chacha20Block key nonce counter
     = concat (map le_bytes32
         (map2 (+) (repeat_n 10 chacha_double_round (chacha_init_state key nonce counter))
                   (chacha_init_state key nonce counter)))"
    by (rule chacha20Block_closed)
  show "length (chacha20Block key nonce counter) = 64"
    by (rule length_chacha20Block)
  show "salsa20Block skey snonce counter rounds
     = map2 (+) (repeat_n ((rounds + 1) div 2) salsa_double_round
                    (salsa_init_state skey snonce counter))
                (salsa_init_state skey snonce counter)"
    by (rule salsa20Block_closed)
  show "length (salsa20Block skey snonce counter rounds) = 16"
    by (rule length_salsa20Block)
  show "wa_bytes (generateKeystream skey snonce 64 rounds)
     = concat (map be_bytes32 (salsa20Block skey snonce 0 rounds))"
    unfolding generateKeystream_def
    by (rule salsa_keystream_block_be) (rule length_salsa20Block)
qed

text \<open>
  Claim C4 as stated fails for Salsa20: with the key bytes \<open>00 01 ... 0f\<close>, the nonce
  bytes \<open>00 01 ... 07\<close> and 8 rounds, the 64 keystream bytes are not the little-endian
  bytes of the block's words (the first byte is \<open>0x8a\<close>, the most significant byte of
  the first word \<open>0x8a7358e6\<close>, not \<open>0xe6\<close>).
\<close>

theorem salsa_keystream_not_little_endian:
  "wa_bytes (generateKeystream
       \<lparr>words = [0x00010203, 0x04050607, 0x08090a0b, 0x0c0d0e0f], sigBytes = 16\<rparr>
       \<lparr>words = [0x00010203, 0x04050607], sigBytes = 8\<rparr> 64 8)
   \<noteq> concat (map le_bytes32 (salsa20Block
       \<lparr>words = [0x00010203, 0x04050607, 0x08090a0b, 0x0c0d0e0f], sigBytes = 16\<rparr>
       \<lparr>words = [0x00010203, 0x04050607], sigBytes = 8\<rparr> 0 8))"
proof -
  have "wa_bytes (generateKeystream
       \<lparr>words = [0x00010203, 0x04050607, 0x08090a0b, 0x0c0d0e0f], sigBytes = 16\<rparr>
       \<lparr>words = [0x00010203, 0x04050607], sigBytes = 8\<rparr> 64 8) ! 0 = 0x8a"
    unfolding generateKeystream_def
    by (subst salsa_keystream_block_be) (simp_all add: length_salsa20Block salsa_sample_block be_bytes32_def)
  moreover have "concat (map le_bytes32 (salsa20Block
       \<lparr>words = [0x00010203, 0x04050607, 0x08090a0b, 0x0c0d0e0f], sigBytes = 16\<rparr>
       \<lparr>words = [0x00010203, 0x04050607], sigBytes = 8\<rparr> 0 8)) ! 0 = 0xe6"
    by (simp add: salsa_sample_block le_bytes32_def)
  ultimately show ?thesis by auto
qed

text \<open>
  Claim C6. \<open>ChaCha20.encrypt\<close> on \<open>pt\<close> returns \<open>pt\<close> XORed byte by byte with the
  first \<open>length pt\<close> bytes of the concatenation of the blocks for the counters
  \<open>0, 1, ..., \<lceil>length pt / 64\<rceil> - 1\<close>, which has \<open>length pt\<close> bytes. The Salsa20 engine
  on the text \<open>s\<close> computes the \<open>WordArray\<close> whose bytes are those of \<open>s\<close> XORed with the
  first \<open>length s\<close> bytes of the concatenation of the blocks for the same counters; it
  has \<open>length s\<close> bytes and is returned as \<open>2 * length s\<close> hexadecimal digits.
\<close>

theorem arx_keystream_encrypt:
  "chacha_encrypt pt key nonce
     = map2 (XOR) pt
         (take (length pt)
            (concat (map (chacha20Block key nonce) [0..<(length pt + 63) div 64])))
   \<and> length (chacha_encrypt pt key nonce) = length pt
   \<and> wa_bytes (xorWithKeystream (Utf8_parse s)
                  (generateKeystream skey snonce (sigBytes (Utf8_parse s)) rounds))
     = map2 (XOR) (map of_char s)
         (take (length s)
            (concat (map (\<lambda>i. unpack_be (salsa20Block skey snonce i rounds))
                         [0..<(length s + 63) div 64])))
   \<and> sigBytes (xorWithKeystream (Utf8_parse s)
                  (generateKeystream skey snonce (sigBytes (Utf8_parse s)) rounds)) = length s
   \<and> length (Hex_stringify (xorWithKeystream (Utf8_parse s)
                  (generateKeystream skey snonce (sigBytes (Utf8_parse s)) rounds))) = 2 * length s"
proof -
  have c: "chacha_encrypt pt key nonce
     = map2 (XOR) pt
         (take (length pt)
            (concat (map (chacha20Block key nonce) [0..<(length pt + 63) div 64])))"
    unfolding chacha_encrypt_def
    by (rule chacha_encrypt_with_closed) (rule length_chacha20Block)
  have cl: "length (chacha_encrypt pt key nonce) = length pt"
    by (simp add: chacha_encrypt_def chacha_encrypt_with_nth)
  have sb: "sigBytes (Utf8_parse s) = length s"
    by (simp add: Utf8_parse_def sigBytes_Latin1_parse)
  have en: "(sigBytes (Utf8_parse s) + 3) div 4 \<le> length (words (Utf8_parse s))"
    by (simp add: Utf8_parse_def sigBytes_Latin1_parse words_Latin1_parse length_pack_be)
  have s1: "wa_bytes (salsa_apply salsa20Block skey snonce (Utf8_parse s) rounds)
     = map2 (XOR) (map of_char s)
         (take (length s)
            (concat (map (\<lambda>i. unpack_be (salsa20Block skey snonce i rounds))
                         [0..<(length s + 63) div 64])))"
    using salsa_apply_bytes [where blk = salsa20Block and key = skey and nonce = snonce
        and rounds = rounds and data = "Utf8_parse s", OF length_salsa20Block en]
    by (simp add: sb wa_bytes_Utf8_parse)
  have s2: "sigBytes (salsa_apply salsa20Block skey snonce (Utf8_parse s) rounds) = length s"
    by (simp add: sigBytes_salsa_apply sb)
  have s3: "length (Hex_stringify (salsa_apply salsa20Block skey snonce (Utf8_parse s) rounds))
      = 2 * length s"
    by (rule salsa_roundtrip_bytes(3)) (rule length_salsa20Block)
  from c cl s1 s2 s3 show ?thesis
    by (simp only: salsa_apply_def generateKeystream_def simp_thms)
qed

section \<open>Round trips of the engines\<close>

text \<open>
  Claim C1, amended. For a plaintext \<open>pt\<close> that is well-formed text, decrypting the
  result of \<open>encrypt\<close> with the same parameters returns a success result that holds
  exactly \<open>pt\<close>

  \<^item> for the TEA engine, with a valid (16-byte) key, in ECB mode or in CBC mode (chosen or
    by default) with an IV supplied, when \<open>pt\<close> is not empty and its length is a multiple
    of 8 bytes, so for the lengths 8 and 64;

  \<^item> for the Salsa20 engine, with a valid key and nonce, when \<open>pt\<close> is not empty, so for
    the lengths 1, 8, 63, 64 and 65;

  \<^item> for the ChaCha20 engine, with a valid key and nonce, for every length, 0 included,
    when \<open>pt\<close> does not start with the byte order mark, which \<open>TextDecoder\<close> drops.
\<close>

theorem engines_roundtrip:
  assumes "utf8_wf (map of_char pt)"
  shows "(pt \<noteq> [] \<and> length pt mod 8 = 0 \<and> feistel_validateKey tk
            \<and> (m = Some ''ECB'' \<or> ((m = None \<or> m = Some ''CBC'') \<and> given iv)) \<longrightarrow>
          feistel_decrypt TeaEngine
            \<lparr>c_ciphertext = the (result (feistel_encrypt TeaEngine random8
                 \<lparr>p_plaintext = pt, p_key = tk, p_iv = iv, p_nonce = tn, p_mode = m,
                  p_variant = v\<rparr>)),
             c_key = tk, c_iv = iv, c_nonce = tn, c_mode = m, c_variant = v\<rparr>
          = succeed pt (feistel_metadata (default_to m ''CBC'') (default_to v ''tea'')))
    \<and> (pt \<noteq> [] \<and> salsa_validateKey sk \<and> salsa_validateNonce sn \<longrightarrow>
          Salsa20Engine_decrypt
            \<lparr>c_ciphertext = the (result (Salsa20Engine_encrypt
                 \<lparr>p_plaintext = pt, p_key = sk, p_iv = iv, p_nonce = Some sn, p_mode = m,
                  p_variant = v\<rparr>)),
             c_key = sk, c_iv = iv, c_nonce = Some sn, c_mode = m, c_variant = v\<rparr>
          = succeed pt (salsa_metadata (Hex_parse sk) (default_to v ''salsa20/20'')))
    \<and> (chacha_validateKey ck \<and> cn \<noteq> [] \<and> chacha_validateNonce cn
            \<and> take 3 (map of_char pt) \<noteq> [0xEF, 0xBB, 0xBF :: byte] \<longrightarrow>
          ChaCha20Engine_decrypt
            \<lparr>c_ciphertext = the (result (ChaCha20Engine_encrypt
                 \<lparr>p_plaintext = pt, p_key = ck, p_iv = iv, p_nonce = Some cn, p_mode = m,
                  p_variant = v\<rparr>)),
             c_key = ck, c_iv = iv, c_nonce = Some cn, c_mode = m, c_variant = v\<rparr>
          = succeed pt chacha_metadata)"
proof (intro conjI impI)
  assume "pt \<noteq> [] \<and> length pt mod 8 = 0 \<and> feistel_validateKey tk
            \<and> (m = Some ''ECB'' \<or> ((m = None \<or> m = Some ''CBC'') \<and> given iv))"
  then show "feistel_decrypt TeaEngine
            \<lparr>c_ciphertext = the (result (feistel_encrypt TeaEngine random8
                 \<lparr>p_plaintext = pt, p_key = tk, p_iv = iv, p_nonce = tn, p_mode = m,
                  p_variant = v\<rparr>)),
             c_key = tk, c_iv = iv, c_nonce = tn, c_mode = m, c_variant = v\<rparr>
          = succeed pt (feistel_metadata (default_to m ''CBC'') (default_to v ''tea''))"
    using assms by (intro tea_engine_roundtrip) simp_all
next
  assume "pt \<noteq> [] \<and> salsa_validateKey sk \<and> salsa_validateNonce sn"
  then show "Salsa20Engine_decrypt
            \<lparr>c_ciphertext = the (result (Salsa20Engine_encrypt
                 \<lparr>p_plaintext = pt, p_key = sk, p_iv = iv, p_nonce = Some sn, p_mode = m,
                  p_variant = v\<rparr>)),
             c_key = sk, c_iv = iv, c_nonce = Some sn, c_mode = m, c_variant = v\<rparr>
          = succeed pt (salsa_metadata (Hex_parse sk) (default_to v ''salsa20/20''))"
    using assms by (intro salsa_engine_roundtrip) simp_all
next
  assume "chacha_validateKey ck \<and> cn \<noteq> [] \<and> chacha_validateNonce cn
            \<and> take 3 (map of_char pt) \<noteq> [0xEF, 0xBB, 0xBF :: byte]"
  then show "ChaCha20Engine_decrypt
            \<lparr>c_ciphertext = the (result (ChaCha20Engine_encrypt
                 \<lparr>p_plaintext = pt, p_key = ck, p_iv = iv, p_nonce = Some cn, p_mode = m,
                  p_variant = v\<rparr>)),
             c_key = ck, c_iv = iv, c_nonce = Some cn, c_mode = m, c_variant = v\<rparr>
          = succeed pt chacha_metadata"
    using assms by (intro chacha_engine_roundtrip) simp_all
qed

text \<open>
  Claim C1 as stated fails for the TEA engine at length 1: the last block is padded with
  zero bytes, and decrypting returns the padded text, 8 characters long.
\<close>

theorem tea_one_byte_not_restored:
  "result (feistel_decrypt TeaEngine
      \<lparr>c_ciphertext = the (result (feistel_encrypt TeaEngine
           \<lparr>words = [0x01234567, 0x89abcdef], sigBytes = 8\<rparr>
           \<lparr>p_plaintext = ''A'', p_key = ''000102030405060708090a0b0c0d0e0f'', p_iv = None,
            p_nonce = None, p_mode = Some ''ECB'', p_variant = None\<rparr>)),
       c_key = ''000102030405060708090a0b0c0d0e0f'', c_iv = None, c_nonce = None,
       c_mode = Some ''ECB'', c_variant = None\<rparr>)
   = Some [CHR ''A'', CHR 0x00, CHR 0x00, CHR 0x00, CHR 0x00, CHR 0x00, CHR 0x00, CHR 0x00]"
  by code_simp

lemma sample_text_valid:
  "utf8_wf (map of_char ''ABCDEFGH'') \<and> feistel_validateKey sample_key16
   \<and> salsa_validateKey sample_key32 \<and> salsa_validateNonce sample_nonce8
   \<and> take 3 (map of_char ''ABCDEFGH'') \<noteq> [0xEF, 0xBB, 0xBF :: byte]"
  by code_simp

text \<open>
  Claim C1, amended, at concrete inputs: the 8-byte text \<open>ABCDEFGH\<close> in ECB mode for
  TEA, and under a 32-byte key for Salsa20 (8-byte nonce) and ChaCha20 (12-byte nonce).
\<close>

theorem engines_roundtrip_witness:
  "utf8_wf (map of_char ''ABCDEFGH'')
   \<and> ''ABCDEFGH'' \<noteq> [] \<and> length ''ABCDEFGH'' mod 8 = 0 \<and> feistel_validateKey sample_key16
   \<and> salsa_validateKey sample_key32 \<and> salsa_validateNonce sample_nonce8
   \<and> chacha_validateKey sample_key32 \<and> sample_nonce12 \<noteq> [] \<and> chacha_validateNonce sample_nonce12
   \<and> take 3 (map of_char ''ABCDEFGH'') \<noteq> [0xEF, 0xBB, 0xBF :: byte]
   \<and> feistel_decrypt TeaEngine
        \<lparr>c_ciphertext = the (result (feistel_encrypt TeaEngine sample_random8
             \<lparr>p_plaintext = ''ABCDEFGH'', p_key = sample_key16, p_iv = None, p_nonce = None,
              p_mode = Some ''ECB'', p_variant = None\<rparr>)),
         c_key = sample_key16, c_iv = None, c_nonce = None, c_mode = Some ''ECB'',
         c_variant = None\<rparr>
      = succeed ''ABCDEFGH'' (feistel_metadata ''ECB'' ''tea'')
   \<and> Salsa20Engine_decrypt
        \<lparr>c_ciphertext = the (result (Salsa20Engine_encrypt
             \<lparr>p_plaintext = ''ABCDEFGH'', p_key = sample_key32, p_iv = None,
              p_nonce = Some sample_nonce8, p_mode = Some ''ECB'', p_variant = None\<rparr>)),
         c_key = sample_key32, c_iv = None, c_nonce = Some sample_nonce8, c_mode = Some ''ECB'',
         c_variant = None\<rparr>
      = succeed ''ABCDEFGH'' (salsa_metadata (Hex_parse sample_key32) ''salsa20/20'')
   \<and> ChaCha20Engine_decrypt
        \<lparr>c_ciphertext = the (result (ChaCha20Engine_encrypt
             \<lparr>p_plaintext = ''ABCDEFGH'', p_key = sample_key32, p_iv = None,
              p_nonce = Some sample_nonce12, p_mode = Some ''ECB'', p_variant = None\<rparr>)),
         c_key = sample_key32, c_iv = None, c_nonce = Some sample_nonce12, c_mode = Some ''ECB'',
         c_variant = None\<rparr>
      = succeed ''ABCDEFGH'' chacha_metadata"
  using engines_roundtrip [where pt = "''ABCDEFGH''" and tk = sample_key16 and sk = sample_key32
      and sn = sample_nonce8 and ck = sample_key32 and cn = sample_nonce12
      and m = "Some ''ECB''" and iv = None and v = None and tn = None
      and ?random8.0 = sample_random8]
    sample_text_valid sample_chacha_valid
  by (simp add: default_to_def)

end
